theory Spec2Isabelle
  imports Complex_Main "HOL-Library.Word" "HOL-Library.Sublist"
begin

section \<open>The tio.run protocol client (src/src/tioRunner.ts)\<close>

text \<open>
  A shallow embedding of \<^verbatim>\<open>tioRunner.ts\<close>: the request encoder
  (\<^verbatim>\<open>encodeLength\<close>, \<^verbatim>\<open>encodeField\<close>, \<^verbatim>\<open>buildRequestBody\<close>), the endpoint
  cache (\<^verbatim>\<open>fetchText\<close>, \<^verbatim>\<open>ensureRunUrl\<close>), the transport
  (\<^verbatim>\<open>executeRequest\<close>) and the response decoder (the tail of \<^verbatim>\<open>runOnTio\<close>).
\<close>

subsection \<open>JavaScript strings and numbers\<close>

text \<open>
  A JavaScript string is a sequence of UTF-16 code units; \<^verbatim>\<open>length\<close>, \<^verbatim>\<open>substring\<close>,
  \<^verbatim>\<open>split\<close> and regular expressions without the \<^verbatim>\<open>u\<close> flag all work on code units.
\<close>

type_synonym jschar = "16 word"
type_synonym jsstring = "jschar list"
type_synonym byte = "8 word"

definition js :: "string \<Rightarrow> jsstring" where
  "js s = map of_char s"

definition NUL :: jschar where
  "NUL = 0"

text \<open>
  A JavaScript number is an IEEE double. The model keeps the rational value of a finite
  number and the three special values. An integer read by \<^verbatim>\<open>Number\<close> is rounded to
  the nearest double (\<open>roundToDouble\<close> below); a decimal fraction read by
  \<^verbatim>\<open>parseFloat\<close> and the quotient of the timeout by 1000 stand for the double nearest
  to them, as the decimal literal of the same digits does in JavaScript.
\<close>

datatype number = NaN | Fin rat | PosInfinity | NegInfinity

text \<open>\<^verbatim>\<open>Math.max(a, b)\<close>: \<^verbatim>\<open>NaN\<close> if either argument is \<^verbatim>\<open>NaN\<close>.\<close>

fun Math_max :: "number \<Rightarrow> number \<Rightarrow> number" where
  "Math_max NaN _ = NaN"
| "Math_max _ NaN = NaN"
| "Math_max PosInfinity _ = PosInfinity"
| "Math_max _ PosInfinity = PosInfinity"
| "Math_max NegInfinity b = b"
| "Math_max a NegInfinity = a"
| "Math_max (Fin a) (Fin b) = Fin (max a b)"

text \<open>\<^verbatim>\<open>Number.isFinite(x)\<close> and the comparison \<^verbatim>\<open>x > 0\<close>.\<close>

fun Number_isFinite :: "number \<Rightarrow> bool" where
  "Number_isFinite (Fin _) = True"
| "Number_isFinite _ = False"

fun gtZero :: "number \<Rightarrow> bool" where
  "gtZero (Fin a) = (a > 0)"
| "gtZero PosInfinity = True"
| "gtZero _ = False"

text \<open>The quotient \<^verbatim>\<open>x / 1000\<close>.\<close>

fun divBy1000 :: "number \<Rightarrow> number" where
  "divBy1000 (Fin a) = Fin (a / 1000)"
| "divBy1000 x = x"

text \<open>
  The decimal digits of a non-negative integer, as a template literal prints an array
  length or a byte count.
\<close>

definition digitChar :: "nat \<Rightarrow> jschar" where
  "digitChar d = of_nat (48 + d)"

fun decimal :: "nat \<Rightarrow> jsstring" where
  "decimal n = (if n < 10 then [digitChar n] else decimal (n div 10) @ [digitChar (n mod 10)])"

declare decimal.simps [simp del]

subsection \<open>UTF-8\<close>

definition isHighSurrogate :: "jschar \<Rightarrow> bool" where
  "isHighSurrogate u \<longleftrightarrow> 0xD800 \<le> u \<and> u \<le> 0xDBFF"

definition isLowSurrogate :: "jschar \<Rightarrow> bool" where
  "isLowSurrogate u \<longleftrightarrow> 0xDC00 \<le> u \<and> u \<le> 0xDFFF"

definition unitByteLength :: "jschar \<Rightarrow> nat" where
  "unitByteLength u = (if u < 0x80 then 1 else if u < 0x800 then 2 else 3)"

text \<open>
  \<^verbatim>\<open>Buffer.byteLength(value, 'utf8')\<close>: the number of bytes of the UTF-8 encoding,
  counted without encoding. A surrogate pair is one code point of four bytes; a lone
  surrogate counts as the three bytes of U+FFFD.
\<close>

fun byteLength :: "jsstring \<Rightarrow> nat" where
  "byteLength [] = 0"
| "byteLength [u] = unitByteLength u"
| "byteLength (u # v # vs) =
     (if isHighSurrogate u \<and> isLowSurrogate v then 4 + byteLength vs
      else unitByteLength u + byteLength (v # vs))"

definition encodeCodePoint :: "nat \<Rightarrow> byte list" where
  "encodeCodePoint cp =
     (if cp < 0x80 then [of_nat cp]
      else if cp < 0x800 then [of_nat (0xC0 + cp div 64), of_nat (0x80 + cp mod 64)]
      else if cp < 0x10000 then
        [of_nat (0xE0 + cp div 4096), of_nat (0x80 + (cp div 64) mod 64),
         of_nat (0x80 + cp mod 64)]
      else
        [of_nat (0xF0 + cp div 262144), of_nat (0x80 + (cp div 4096) mod 64),
         of_nat (0x80 + (cp div 64) mod 64), of_nat (0x80 + cp mod 64)])"

definition encodeUnit :: "jschar \<Rightarrow> byte list" where
  "encodeUnit u =
     (if isHighSurrogate u \<or> isLowSurrogate u then [0xEF, 0xBF, 0xBD]
      else encodeCodePoint (unat u))"

definition pairCodePoint :: "jschar \<Rightarrow> jschar \<Rightarrow> nat" where
  "pairCodePoint u v = 0x10000 + (unat u - 0xD800) * 0x400 + (unat v - 0xDC00)"

text \<open>
  The bytes a string becomes when it is written to a buffer as UTF-8, which is what
  \<^verbatim>\<open>deflateRawSync\<close> compresses when it is given a string.
\<close>

fun utf8Encode :: "jsstring \<Rightarrow> byte list" where
  "utf8Encode [] = []"
| "utf8Encode [u] = encodeUnit u"
| "utf8Encode (u # v # vs) =
     (if isHighSurrogate u \<and> isLowSurrogate v
      then encodeCodePoint (pairCodePoint u v) @ utf8Encode vs
      else encodeUnit u @ utf8Encode (v # vs))"

subsection \<open>Request encoder\<close>

datatype AbortSignal = AbortSignal

record NormalizedOptions =
  language :: jsstring
  stdin :: jsstring
  timeout :: number
  argv :: "jsstring list"
  cflags :: "jsstring list"
  signal :: "AbortSignal option"

definition encodeLength :: "jsstring \<Rightarrow> nat" where
  "encodeLength v = byteLength v"

definition encodeField :: "jsstring \<Rightarrow> jsstring \<Rightarrow> jsstring" where
  "encodeField label v = label @ [NUL] @ decimal (encodeLength v) @ [NUL] @ v"

text \<open>\<^verbatim>\<open>xs.map((x) => `${x}\0`).join('')\<close>\<close>

definition nulTerminated :: "jsstring list \<Rightarrow> jsstring" where
  "nulTerminated xs = concat (map (\<lambda>x. x @ [NUL]) xs)"

text \<open>The template string \<^verbatim>\<open>payload\<close> of \<^verbatim>\<open>buildRequestBody\<close>.\<close>

definition payload :: "jsstring \<Rightarrow> NormalizedOptions \<Rightarrow> jsstring" where
  "payload code options =
     js ''Vargs'' @ [NUL] @ decimal (length (argv options)) @ [NUL] @ nulTerminated (argv options)
     @ js ''Vlang'' @ [NUL] @ js ''1'' @ [NUL] @ language options @ [NUL]
     @ js ''VTIO_CFLAGS'' @ [NUL] @ decimal (length (cflags options)) @ [NUL]
     @ nulTerminated (cflags options)
     @ js ''VTIO_OPTIONS'' @ [NUL] @ js ''0'' @ [NUL]
     @ encodeField (js ''F.code.tio'') code
     @ encodeField (js ''F.input.tio'') (stdin options)
     @ js ''R''"

text \<open>
  \<^verbatim>\<open>buildRequestBody\<close>; \<^verbatim>\<open>deflateRawSync(_, { level: 9 })\<close> on bytes is a
  parameter.
\<close>

definition buildRequestBody ::
    "(byte list \<Rightarrow> byte list) \<Rightarrow> jsstring \<Rightarrow> NormalizedOptions \<Rightarrow> byte list" where
  "buildRequestBody deflateRawSync code options = deflateRawSync (utf8Encode (payload code options))"

text \<open>
  The frame as the specification names its fields: \<^verbatim>\<open>args\<close>, \<^verbatim>\<open>lang\<close>,
  \<^verbatim>\<open>CFLAGS\<close>, \<^verbatim>\<open>OPTIONS\<close>, \<^verbatim>\<open>code\<close> and \<^verbatim>\<open>input\<close>. Where the
  specification is silent (the terminator byte, the NUL after the language token) this
  definition does what \<open>payload\<close> does, so that the two differ in the names only.
\<close>

definition specFrame :: "jsstring \<Rightarrow> NormalizedOptions \<Rightarrow> jsstring" where
  "specFrame code options =
     js ''args'' @ [NUL] @ decimal (length (argv options)) @ [NUL] @ nulTerminated (argv options)
     @ js ''lang'' @ [NUL] @ js ''1'' @ [NUL] @ language options @ [NUL]
     @ js ''CFLAGS'' @ [NUL] @ decimal (length (cflags options)) @ [NUL]
     @ nulTerminated (cflags options)
     @ js ''OPTIONS'' @ [NUL] @ js ''0'' @ [NUL]
     @ encodeField (js ''code'') code
     @ encodeField (js ''input'') (stdin options)
     @ js ''R''"

definition isAscii :: "jsstring \<Rightarrow> bool" where
  "isAscii s \<longleftrightarrow> (\<forall>c \<in> set s. c < 0x80)"

subsection \<open>String operations of the decoder\<close>

text \<open>
  \<^verbatim>\<open>S.indexOf(sep)\<close>: the first index at which \<open>sep\<close> occurs in \<open>S\<close>, if any.
\<close>

fun indexOf :: "jsstring \<Rightarrow> jsstring \<Rightarrow> nat option" where
  "indexOf sep [] = (if sep = [] then Some 0 else None)"
| "indexOf sep (c # cs) =
     (if prefix sep (c # cs) then Some 0 else map_option Suc (indexOf sep cs))"

text \<open>
  \<^verbatim>\<open>S.split(sep)\<close> with a string separator and no limit: an empty separator splits
  into the single code units (and the empty string into no piece at all); otherwise
  the pieces between the successive occurrences of the separator, searched from the end
  of the previous occurrence.
\<close>

function split_js :: "jsstring \<Rightarrow> jsstring \<Rightarrow> jsstring list" where
  "split_js S sep =
     (if sep = [] then map (\<lambda>c. [c]) S
      else (case indexOf sep S of
              None \<Rightarrow> [S]
            | Some j \<Rightarrow> take j S # split_js (drop (j + length sep) S) sep))"
  by pat_completeness auto
termination
proof (relation "measure (\<lambda>(S, sep). length S)")
  show "wf (measure (\<lambda>(S, sep). length S))" by simp
next
  fix S sep :: jsstring and j
  assume "sep \<noteq> []" and "indexOf sep S = Some j"
  then have "S \<noteq> []" by (cases S) auto
  with \<open>sep \<noteq> []\<close> show "((drop (j + length sep) S, sep), (S, sep)) \<in> measure (\<lambda>(S, sep). length S)"
    by (cases sep) auto
qed

declare split_js.simps [simp del]

subsection \<open>Regular expressions\<close>

text \<open>
  The three patterns of the file are sequences of literals, greedy repetitions of a
  character class, capture groups and anchors. \<open>Rep m cls\<close> is \<^verbatim>\<open>[cls]*\<close> for
  \<open>m = 0\<close> and \<^verbatim>\<open>[cls]+\<close> for \<open>m = 1\<close>; \<open>Bol\<close> and \<open>Eol\<close> are \<^verbatim>\<open>^\<close> and
  \<^verbatim>\<open>$\<close> under the \<^verbatim>\<open>m\<close> flag, \<open>End\<close> is \<^verbatim>\<open>$\<close> without it.
\<close>

datatype atom = Lit jsstring | Rep nat "jschar \<Rightarrow> bool" | Open | Close | Bol | Eol | End

definition isLineTerminator :: "jschar \<Rightarrow> bool" where
  "isLineTerminator c \<longleftrightarrow> c = 0x0A \<or> c = 0x0D \<or> c = 0x2028 \<or> c = 0x2029"

text \<open>
  The captures of a match in progress: the groups already closed, in order, and the
  text consumed so far by the group that is open, if one is.
\<close>

type_synonym captures = "jsstring list \<times> jsstring option"

fun consume :: "jsstring \<Rightarrow> captures \<Rightarrow> captures" where
  "consume t (caps, cur) = (caps, map_option (\<lambda>c. c @ t) cur)"

text \<open>Backtracking of a greedy repetition: the longest count first, down to \<open>lo\<close>.\<close>

fun tryDown :: "(nat \<Rightarrow> 'a option) \<Rightarrow> nat \<Rightarrow> nat \<Rightarrow> 'a option" where
  "tryDown f lo 0 = (if lo = 0 then f 0 else None)"
| "tryDown f lo (Suc k) =
     (if Suc k < lo then None
      else (case f (Suc k) of Some r \<Rightarrow> Some r | None \<Rightarrow> tryDown f lo k))"

text \<open>
  Matching a pattern at the current position: \<open>prev\<close> is the code unit before the
  position (for \<^verbatim>\<open>^\<close>), the string is the input from the position on. The result is
  the list of capture groups.
\<close>

fun matchHere :: "atom list \<Rightarrow> jschar option \<Rightarrow> jsstring \<Rightarrow> captures \<Rightarrow> jsstring list option" where
  "matchHere [] prev s (caps, cur) = Some caps"
| "matchHere (Lit l # r) prev s st =
     (if prefix l s
      then matchHere r (if l = [] then prev else Some (last l)) (drop (length l) s) (consume l st)
      else None)"
| "matchHere (Rep m cls # r) prev s st =
     tryDown (\<lambda>k. matchHere r (if k = 0 then prev else Some (s ! (k - 1))) (drop k s)
                     (consume (take k s) st))
       m (length (takeWhile cls s))"
| "matchHere (Open # r) prev s (caps, cur) = matchHere r prev s (caps, Some [])"
| "matchHere (Close # r) prev s (caps, cur) =
     matchHere r prev s (caps @ [case cur of Some c \<Rightarrow> c | None \<Rightarrow> []], None)"
| "matchHere (Bol # r) prev s st =
     (case prev of None \<Rightarrow> matchHere r prev s st
      | Some p \<Rightarrow> if isLineTerminator p then matchHere r prev s st else None)"
| "matchHere (Eol # r) prev s st =
     (case s of [] \<Rightarrow> matchHere r prev s st
      | c # _ \<Rightarrow> if isLineTerminator c then matchHere r prev s st else None)"
| "matchHere (End # r) prev s st = (if s = [] then matchHere r prev s st else None)"

text \<open>The leftmost match: the start positions are tried from left to right.\<close>

fun searchFrom :: "atom list \<Rightarrow> jschar option \<Rightarrow> jsstring \<Rightarrow> jsstring list option" where
  "searchFrom re prev [] = matchHere re prev [] ([], None)"
| "searchFrom re prev (c # cs) =
     (case matchHere re prev (c # cs) ([], None) of
        Some caps \<Rightarrow> Some caps
      | None \<Rightarrow> searchFrom re (Some c) cs)"

text \<open>\<^verbatim>\<open>s.match(re)\<close> for a pattern without the \<^verbatim>\<open>g\<close> flag: the groups 1, 2, ...\<close>

definition regexMatch :: "atom list \<Rightarrow> jsstring \<Rightarrow> jsstring list option" where
  "regexMatch re s = searchFrom re None s"

definition dquote :: jschar where
  "dquote = 0x22"

definition LF :: jschar where
  "LF = 0x0A"

definition isDigit :: "jschar \<Rightarrow> bool" where
  "isDigit c \<longleftrightarrow> 0x30 \<le> c \<and> c \<le> 0x39"

definition isDigitOrDot :: "jschar \<Rightarrow> bool" where
  "isDigitOrDot c \<longleftrightarrow> isDigit c \<or> c = 0x2E"

definition isLowerHex :: "jschar \<Rightarrow> bool" where
  "isLowerHex c \<longleftrightarrow> isDigit c \<or> (0x61 \<le> c \<and> c \<le> 0x66)"

definition anyChar :: "jschar \<Rightarrow> bool" where
  "anyChar c \<longleftrightarrow> True"

definition notQuote :: "jschar \<Rightarrow> bool" where
  "notQuote c \<longleftrightarrow> c \<noteq> dquote"

text \<open>\<^verbatim>\<open>/<script src="(\/static\/[0-9a-f]+-frontend\.js)" defer><\/script>/\<close>\<close>

definition SCRIPT_REGEX :: "atom list" where
  "SCRIPT_REGEX =
     [Lit (js ''<script src='' @ [dquote]),
      Open, Lit (js ''/static/''), Rep 1 isLowerHex, Lit (js ''-frontend.js''), Close,
      Lit ([dquote] @ js '' defer></script>'')]"

text \<open>\<^verbatim>\<open>/^var runURL = "\/cgi-bin\/static\/([^"]+)";$/m\<close>\<close>

definition RUN_URL_REGEX :: "atom list" where
  "RUN_URL_REGEX =
     [Bol, Lit (js ''var runURL = '' @ [dquote] @ js ''/cgi-bin/static/''),
      Open, Rep 1 notQuote, Close,
      Lit ([dquote] @ js '';''), Eol]"

text \<open>
  \<^verbatim>\<open>/([\s\S]*)Real time: ([\d.]+) s\nUser time: ([\d.]+) s\nSys\. time: ([\d.]+) s\nCPU share: ([\d.]+) %\nExit code: (\d+)$/\<close>
\<close>

definition DEBUG_REGEX :: "atom list" where
  "DEBUG_REGEX =
     [Open, Rep 0 anyChar, Close,
      Lit (js ''Real time: ''), Open, Rep 1 isDigitOrDot, Close,
      Lit (js '' s'' @ [LF] @ js ''User time: ''), Open, Rep 1 isDigitOrDot, Close,
      Lit (js '' s'' @ [LF] @ js ''Sys. time: ''), Open, Rep 1 isDigitOrDot, Close,
      Lit (js '' s'' @ [LF] @ js ''CPU share: ''), Open, Rep 1 isDigitOrDot, Close,
      Lit (js '' %'' @ [LF] @ js ''Exit code: ''), Open, Rep 1 isDigit, Close,
      End]"

subsection \<open>Numbers read from the diagnostics\<close>

definition digitsValue :: "jsstring \<Rightarrow> nat" where
  "digitsValue s = foldl (\<lambda>acc c. 10 * acc + (unat c - 48)) 0 s"

text \<open>
  \<^verbatim>\<open>parseFloat\<close> on a string of digits and dots (the only strings the decoder passes,
  captures of \<^verbatim>\<open>[\d.]+\<close>): the longest prefix that is a decimal literal, \<^verbatim>\<open>NaN\<close>
  if there is none. Signs, exponents, leading white space and \<^verbatim>\<open>Infinity\<close> cannot
  occur in such a string and are not modelled: any other code unit ends the literal.
\<close>

definition parseFloat :: "jsstring \<Rightarrow> number" where
  "parseFloat s =
     (let ip = takeWhile isDigit s; rest = dropWhile isDigit s in
      case rest of
        c # r \<Rightarrow>
          if c = 0x2E then
            (let fp = takeWhile isDigit r in
             if ip = [] \<and> fp = [] then NaN
             else Fin (of_nat (digitsValue ip) + of_nat (digitsValue fp) / 10 ^ length fp))
          else if ip = [] then NaN else Fin (of_nat (digitsValue ip))
      | [] \<Rightarrow> if ip = [] then NaN else Fin (of_nat (digitsValue ip)))"

text \<open>The number of binary digits of a natural number.\<close>

fun bitLength :: "nat \<Rightarrow> nat" where
  "bitLength n = (if n = 0 then 0 else Suc (bitLength (n div 2)))"

declare bitLength.simps [simp del]

text \<open>
  The double nearest to a natural number: the number itself below \<open>2 ^ 53\<close>; above, the
  53 leading binary digits, rounded to nearest with ties to the even significand, the
  other digits zero; \<^verbatim>\<open>Infinity\<close> when the rounded value reaches \<open>2 ^ 1024\<close>.
\<close>

definition roundToDouble :: "nat \<Rightarrow> number" where
  "roundToDouble n =
     (if int n < 2 ^ 53 then Fin (of_nat n)
      else
        (let e = bitLength n - 53;
             q = n div 2 ^ e;
             r = n mod 2 ^ e;
             q' = (if 2 ^ e < 2 * r \<or> (2 * r = 2 ^ e \<and> odd q) then q + 1 else q)
         in if 2 ^ 1024 \<le> q' * 2 ^ e then PosInfinity else Fin (of_nat (q' * 2 ^ e))))"

text \<open>
  \<^verbatim>\<open>Number(s)\<close> on a string of digits (the only strings the decoder passes, captures
  of \<^verbatim>\<open>\d+\<close>): the decimal value, rounded to a double; the empty string is 0.
  (ECMAScript lets an implementation approximate a literal of more than 20 significant
  digits; this is the correctly rounded value, which is what V8 returns.) The other
  literal forms \<^verbatim>\<open>Number\<close> accepts are not modelled and read as \<^verbatim>\<open>NaN\<close>.
\<close>

definition Number_js :: "jsstring \<Rightarrow> number" where
  "Number_js s = (if list_all isDigit s then roundToDouble (digitsValue s) else NaN)"

subsection \<open>Response decoder\<close>

datatype error =
    ExecutionAbortedError
  | FetchFailed jsstring nat
  | NoFrontendScript
  | NoExecutionUrl
  | BadResponse nat jsstring
  | UnexpectedFormat
  | DiagnosticsUnparsable
  | Rejected string
  | GunzipFailed

text \<open>
  Apart from \<open>ExecutionAbortedError\<close> these are all plain \<^verbatim>\<open>Error\<close>s of the source,
  told apart by their message: \<open>FetchFailed path status\<close> is
  \<^verbatim>\<open>Failed to fetch ${path} from tio.run (${status})\<close>, \<open>NoFrontendScript\<close> is
  \<^verbatim>\<open>Unable to resolve tio.run frontend script URL\<close>, \<open>NoExecutionUrl\<close> is
  \<^verbatim>\<open>Unable to resolve tio.run execution URL\<close>, \<open>BadResponse status statusText\<close> is
  \<^verbatim>\<open>tio.run responded with ${status} ${statusText}\<close>, \<open>UnexpectedFormat\<close> is
  \<^verbatim>\<open>Unexpected response format received from tio.run\<close>, \<open>DiagnosticsUnparsable\<close>
  is \<^verbatim>\<open>Unable to parse tio.run diagnostics output\<close>. \<open>Rejected name\<close> is the
  rejection of a \<^verbatim>\<open>fetch\<close> promise with an error of that name, \<open>GunzipFailed\<close> the
  exception of \<^verbatim>\<open>gunzipSync\<close> on bytes that are not a gzip stream.
\<close>

record TioResponse =
  "output" :: jsstring
  timedOut :: bool
  realTime :: number
  userTime :: number
  sysTime :: number
  CPUshare :: number
  exitCode :: number

text \<open>\<^verbatim>\<open>content.substring(16).split(content.substring(0, 16))\<close>\<close>

definition sections :: "jsstring \<Rightarrow> jsstring list" where
  "sections content = split_js (drop 16 content) (take 16 content)"

text \<open>
  Lines 192 to 215 of \<^verbatim>\<open>runOnTio\<close>: from the decompressed text and the
  \<^verbatim>\<open>timedOut\<close> flag of the transport to the result.
\<close>

definition decodeResponse :: "jsstring \<Rightarrow> bool \<Rightarrow> error + TioResponse" where
  "decodeResponse content timedOut' =
     (let secs = sections content in
      if length secs < 2 then Inl UnexpectedFormat
      else (case regexMatch DEBUG_REGEX (secs ! 1) of
              None \<Rightarrow> Inl DiagnosticsUnparsable
            | Some m \<Rightarrow>
                Inr \<lparr> output = (if secs ! 0 \<noteq> [] then secs ! 0 else m ! 0),
                      timedOut = timedOut',
                      realTime = parseFloat (m ! 1),
                      userTime = parseFloat (m ! 2),
                      sysTime = parseFloat (m ! 3),
                      CPUshare = parseFloat (m ! 4),
                      exitCode = Number_js (m ! 5) \<rparr>))"

subsection \<open>The outside world\<close>

text \<open>
  The module state (\<^verbatim>\<open>runUrl\<close>, \<^verbatim>\<open>nextRefreshAt\<close>), the clock read by
  \<^verbatim>\<open>Date.now()\<close>, the network requests issued so far (oldest first), the durations
  passed to \<^verbatim>\<open>setTimeout\<close> so far, and the \<^verbatim>\<open>aborted\<close> flag of the caller's
  \<^verbatim>\<open>AbortSignal\<close> (meaningful when the options carry a signal).
\<close>

datatype request = GET jsstring | POST jsstring "byte list"

record world =
  runUrl :: "jsstring option"
  nextRefreshAt :: int
  now :: int
  requests :: "request list"
  timers :: "number list"
  signalAborted :: bool

record response =
  status :: nat
  statusText :: jsstring
  bodyText :: jsstring
  bodyBytes :: "byte list"

text \<open>\<^verbatim>\<open>response.ok\<close>: the status is in the range 200 to 299.\<close>

definition ok :: "response \<Rightarrow> bool" where
  "ok r \<longleftrightarrow> 200 \<le> status r \<and> status r \<le> 299"

datatype settled = Fulfilled response | RejectedWith string

datatype interrupt = TimerFired | SignalAborted

text \<open>
  What the program cannot decide, indexed by the number of requests issued before:
  how the server settles the request (assumed to settle, unless the request is aborted;
  a failure while the body is read counts as a rejection of the request),
  how long that takes, which of the timer and the caller's signal fire while the request
  is in flight and before the awaiting code resumes, in their order, and the random path
  suffix. The library functions \<^verbatim>\<open>deflateRawSync\<close>, \<^verbatim>\<open>gunzipSync(_).toString()\<close>
  (\<open>None\<close> when it throws) and the printing of a number in a template literal are
  parameters too.
\<close>

record env =
  serve :: "nat \<Rightarrow> request \<Rightarrow> settled"
  elapsed :: "nat \<Rightarrow> nat"
  interrupts :: "nat \<Rightarrow> interrupt list"
  randomBytesHex :: "nat \<Rightarrow> jsstring"
  deflateRawSync :: "byte list \<Rightarrow> byte list"
  gunzipSync :: "byte list \<Rightarrow> jsstring option"
  numberToString :: "number \<Rightarrow> jsstring"

definition TIO_BASE_URL :: jsstring where
  "TIO_BASE_URL = js ''https://tio.run''"

definition RUN_URL_REFRESH_MS :: int where
  "RUN_URL_REFRESH_MS = 850000"

definition MIN_TIMEOUT_MS :: number where
  "MIN_TIMEOUT_MS = Fin 500"

subsection \<open>Endpoint resolver\<close>

text \<open>
  \<^verbatim>\<open>fetchText\<close>. No timer runs and no abort listener is registered during a discovery
  fetch; a caller's signal that fires meanwhile only has its flag set.
\<close>

definition fetchText :: "env \<Rightarrow> jsstring \<Rightarrow> world \<Rightarrow> (error + jsstring) \<times> world" where
  "fetchText e path w =
     (let n = length (requests w);
          req = GET (TIO_BASE_URL @ path);
          w' = w\<lparr> requests := requests w @ [req],
                  now := now w + int (elapsed e n),
                  signalAborted := (signalAborted w \<or> SignalAborted \<in> set (interrupts e n)) \<rparr>
      in case serve e n req of
           RejectedWith name \<Rightarrow> (Inl (Rejected name), w')
         | Fulfilled r \<Rightarrow>
             if \<not> ok r then (Inl (FetchFailed path (status r)), w')
             else (Inr (bodyText r), w'))"

definition ensureRunUrl :: "env \<Rightarrow> world \<Rightarrow> (error + unit) \<times> world" where
  "ensureRunUrl e w =
     (if runUrl w \<noteq> None \<and> now w < nextRefreshAt w then (Inr (), w)
      else
        (case fetchText e (js ''/'') w of
           (Inl err, w1) \<Rightarrow> (Inl err, w1)
         | (Inr landingHtml, w1) \<Rightarrow>
             (case regexMatch SCRIPT_REGEX landingHtml of
                None \<Rightarrow> (Inl NoFrontendScript, w1)
              | Some m \<Rightarrow>
                  (let scriptPath = m ! 0 in
                   if scriptPath = [] then (Inl NoFrontendScript, w1)
                   else
                     (case fetchText e scriptPath w1 of
                        (Inl err, w2) \<Rightarrow> (Inl err, w2)
                      | (Inr frontendScript, w2) \<Rightarrow>
                          (case regexMatch RUN_URL_REGEX frontendScript of
                             None \<Rightarrow> (Inl NoExecutionUrl, w2)
                           | Some m' \<Rightarrow>
                               (let newRunUrl = m' ! 0 in
                                if newRunUrl = [] then (Inl NoExecutionUrl, w2)
                                else (Inr (),
                                      w2\<lparr> runUrl := Some newRunUrl,
                                          nextRefreshAt := now w2 + RUN_URL_REFRESH_MS \<rparr>))))))))"

subsection \<open>Transport executor\<close>

text \<open>
  The variables the callbacks of \<^verbatim>\<open>executeRequest\<close> write while the POST is in
  flight: the local \<^verbatim>\<open>timedOut\<close>, the state of the local \<^verbatim>\<open>AbortController\<close> and
  the \<^verbatim>\<open>aborted\<close> flag of the caller's signal.
\<close>

record flight =
  timedOutFlag :: bool
  controllerAborted :: bool
  signalFlag :: bool

datatype action = SetTimedOut | MarkSignalAborted | AbortController

fun perform :: "action \<Rightarrow> flight \<Rightarrow> flight" where
  "perform SetTimedOut f = f\<lparr> timedOutFlag := True \<rparr>"
| "perform MarkSignalAborted f = f\<lparr> signalFlag := True \<rparr>"
| "perform AbortController f = f\<lparr> controllerAborted := True \<rparr>"

text \<open>
  The timer callback is \<^verbatim>\<open>timedOut = true; controller.abort();\<close>. When the caller's
  signal is aborted, the runtime sets its flag and then runs the listener
  \<^verbatim>\<open>handleAbort\<close>, which is \<^verbatim>\<open>controller.abort()\<close>.
\<close>

fun callback :: "interrupt \<Rightarrow> action list" where
  "callback TimerFired = [SetTimedOut, AbortController]"
| "callback SignalAborted = [MarkSignalAborted, AbortController]"

text \<open>
  The timer exists when \<^verbatim>\<open>Number.isFinite(options.timeout) && options.timeout > 0\<close>,
  the listener when the options carry a signal.
\<close>

definition timerArmed :: "NormalizedOptions \<Rightarrow> bool" where
  "timerArmed options \<longleftrightarrow> Number_isFinite (timeout options) \<and> gtZero (timeout options)"

fun effective :: "NormalizedOptions \<Rightarrow> interrupt \<Rightarrow> bool" where
  "effective options TimerFired = timerArmed options"
| "effective options SignalAborted = (signal options \<noteq> None)"

definition actions :: "NormalizedOptions \<Rightarrow> interrupt list \<Rightarrow> action list" where
  "actions options is = concat (map callback (filter (effective options) is))"

definition runActions :: "action list \<Rightarrow> flight \<Rightarrow> flight" where
  "runActions as f = foldl (\<lambda>s a. perform a s) f as"

text \<open>The \<^verbatim>\<open>catch\<close> block of \<^verbatim>\<open>executeRequest\<close>.\<close>

fun catchBlock :: "NormalizedOptions \<Rightarrow> flight \<Rightarrow> error \<Rightarrow> error + (byte list option \<times> bool)" where
  "catchBlock options f (Rejected name) =
     (if name = ''AbortError'' then
        (if timedOutFlag f then Inr (None, True)
         else if signal options \<noteq> None \<and> signalFlag f then Inl ExecutionAbortedError
         else Inl (Rejected name))
      else Inl (Rejected name))"
| "catchBlock options f err = Inl err"

definition postUrl :: "env \<Rightarrow> world \<Rightarrow> jsstring" where
  "postUrl e w =
     TIO_BASE_URL @ js ''/cgi-bin/static/''
       @ (case runUrl w of None \<Rightarrow> js ''null'' | Some u \<Rightarrow> u)
       @ js ''/'' @ randomBytesHex e (length (requests w))"

text \<open>
  \<^verbatim>\<open>executeRequest\<close>. The result is the pair \<^verbatim>\<open>{ buffer, timedOut }\<close>, \<open>None\<close> for
  a \<^verbatim>\<open>null\<close> buffer. An aborted controller rejects the pending \<^verbatim>\<open>fetch\<close> (or the
  pending \<^verbatim>\<open>arrayBuffer\<close>) with an \<^verbatim>\<open>AbortError\<close>.
\<close>

definition executeRequest ::
    "env \<Rightarrow> byte list \<Rightarrow> NormalizedOptions \<Rightarrow> world \<Rightarrow> (error + (byte list option \<times> bool)) \<times> world" where
  "executeRequest e body options w =
     (let w0 = (if timerArmed options then w\<lparr> timers := timers w @ [timeout options] \<rparr> else w) in
      if signal options \<noteq> None \<and> signalAborted w0 then (Inl ExecutionAbortedError, w0)
      else
        (let n = length (requests w0);
             req = POST (postUrl e w0) body;
             f = runActions (actions options (interrupts e n))
                   \<lparr> timedOutFlag = False, controllerAborted = False,
                     signalFlag = signalAborted w0 \<rparr>;
             w1 = w0\<lparr> requests := requests w0 @ [req],
                      now := now w0 + int (elapsed e n),
                      signalAborted := signalFlag f \<rparr>
         in if controllerAborted f then (catchBlock options f (Rejected ''AbortError''), w1)
            else
              (case serve e n req of
                 RejectedWith name \<Rightarrow> (catchBlock options f (Rejected name), w1)
               | Fulfilled r \<Rightarrow>
                   if \<not> ok r then (catchBlock options f (BadResponse (status r) (statusText r)), w1)
                   else (Inr (Some (bodyBytes r), False), w1))))"

subsection \<open>The entry point\<close>

text \<open>
  The options of the caller. Its fields carry the prefix \<open>req_\<close>, the plain names being
  those of the normalized options; an absent optional field is \<open>None\<close>.
\<close>

record TioRunOptions =
  req_language :: jsstring
  req_stdin :: "jsstring option"
  req_timeout :: number
  req_argv :: "jsstring list option"
  req_cflags :: "jsstring list option"
  req_signal :: "AbortSignal option"

text \<open>The object \<^verbatim>\<open>normalized\<close> built at the start of \<^verbatim>\<open>runOnTio\<close>.\<close>

definition normalized :: "TioRunOptions \<Rightarrow> NormalizedOptions" where
  "normalized options =
     \<lparr> language = req_language options,
       stdin = (case req_stdin options of None \<Rightarrow> [] | Some s \<Rightarrow> s),
       timeout = Math_max MIN_TIMEOUT_MS (req_timeout options),
       argv = (case req_argv options of None \<Rightarrow> [] | Some a \<Rightarrow> a),
       cflags = (case req_cflags options of None \<Rightarrow> [] | Some c \<Rightarrow> c),
       signal = req_signal options \<rparr>"

text \<open>The result returned when the buffer is \<^verbatim>\<open>null\<close>.\<close>

definition timedOutResponse :: "env \<Rightarrow> NormalizedOptions \<Rightarrow> TioResponse" where
  "timedOutResponse e n =
     \<lparr> output = js ''Request timed out after '' @ numberToString e (timeout n) @ js ''ms'',
       timedOut = True,
       realTime = divBy1000 (timeout n),
       userTime = divBy1000 (timeout n),
       sysTime = divBy1000 (timeout n),
       CPUshare = Fin 0,
       exitCode = Fin 124 \<rparr>"

definition runOnTio ::
    "env \<Rightarrow> jsstring \<Rightarrow> TioRunOptions \<Rightarrow> world \<Rightarrow> (error + TioResponse) \<times> world" where
  "runOnTio e code options w =
     (let n = normalized options in
      case ensureRunUrl e w of
        (Inl err, w1) \<Rightarrow> (Inl err, w1)
      | (Inr _, w1) \<Rightarrow>
          (let body = buildRequestBody (deflateRawSync e) code n in
           case executeRequest e body n w1 of
             (Inl err, w2) \<Rightarrow> (Inl err, w2)
           | (Inr (buffer, timedOut'), w2) \<Rightarrow>
               (case buffer of
                  None \<Rightarrow> (Inr (timedOutResponse e n), w2)
                | Some b \<Rightarrow>
                    (case gunzipSync e b of
                       None \<Rightarrow> (Inl GunzipFailed, w2)
                     | Some content \<Rightarrow> (decodeResponse content timedOut', w2)))))"

subsection \<open>Two descriptions of the diagnostics\<close>

text \<open>
  What the pattern \<^verbatim>\<open>DEBUG_REGEX\<close> accepts, as a description of texts: any text,
  followed up to the end by \<^verbatim>\<open>Real time: T s\<close>, \<^verbatim>\<open>User time: T s\<close>,
  \<^verbatim>\<open>Sys. time: T s\<close>, \<^verbatim>\<open>CPU share: T %\<close> and \<^verbatim>\<open>Exit code: D\<close>, separated by
  line feeds, where each \<open>T\<close> is a non-empty run of digits and dots and \<open>D\<close> a non-empty
  run of digits. The program's matcher is \<open>regexMatch DEBUG_REGEX\<close>; that the two agree
  is proved below.
\<close>

definition floatToken :: "jsstring \<Rightarrow> bool" where
  "floatToken t \<longleftrightarrow> t \<noteq> [] \<and> list_all isDigitOrDot t"

definition intToken :: "jsstring \<Rightarrow> bool" where
  "intToken t \<longleftrightarrow> t \<noteq> [] \<and> list_all isDigit t"

definition metricsBlock :: "jsstring \<Rightarrow> jsstring \<Rightarrow> jsstring \<Rightarrow> jsstring \<Rightarrow> jsstring \<Rightarrow> jsstring" where
  "metricsBlock rt ut st cs ec =
     js ''Real time: '' @ rt @ js '' s'' @ [LF]
     @ js ''User time: '' @ ut @ js '' s'' @ [LF]
     @ js ''Sys. time: '' @ st @ js '' s'' @ [LF]
     @ js ''CPU share: '' @ cs @ js '' %'' @ [LF]
     @ js ''Exit code: '' @ ec"

definition endsWithMetricTokens :: "jsstring \<Rightarrow> bool" where
  "endsWithMetricTokens seg \<longleftrightarrow>
     (\<exists>debug rt ut st cs ec.
        floatToken rt \<and> floatToken ut \<and> floatToken st \<and> floatToken cs \<and> intToken ec
        \<and> seg = debug @ metricsBlock rt ut st cs ec)"

text \<open>
  The grammar of section 1 in the specification's words: free-form debug text of zero
  or more lines, followed by the lines \<^verbatim>\<open>Real time: <float> s\<close>,
  \<^verbatim>\<open>User time: <float> s\<close>, \<^verbatim>\<open>Sys. time: <float> s\<close>, \<^verbatim>\<open>CPU share: <float> %\<close>
  and \<^verbatim>\<open>Exit code: <int>\<close>, each on its own line, up to the end of the section. A
  float is a decimal number: digits, or digits, a dot and digits. Debug text of whole
  lines is empty or ends with a line feed, so that the first metric line starts a line.
\<close>

definition floatLiteral :: "jsstring \<Rightarrow> bool" where
  "floatLiteral t \<longleftrightarrow>
     (let ip = takeWhile isDigit t; rest = dropWhile isDigit t in
      ip \<noteq> [] \<and> (rest = [] \<or> (hd rest = 0x2E \<and> tl rest \<noteq> [] \<and> list_all isDigit (tl rest))))"

definition wholeLines :: "jsstring \<Rightarrow> bool" where
  "wholeLines d \<longleftrightarrow> d = [] \<or> last d = LF"

definition endsWithMetricLines :: "jsstring \<Rightarrow> bool" where
  "endsWithMetricLines seg \<longleftrightarrow>
     (\<exists>debug rt ut st cs ec.
        wholeLines debug
        \<and> floatLiteral rt \<and> floatLiteral ut \<and> floatLiteral st \<and> floatLiteral cs \<and> intToken ec
        \<and> seg = debug @ metricsBlock rt ut st cs ec)"

text \<open>
  The element of the landing page that names the frontend script, and the statement of
  the frontend script that assigns the execution path, as texts.
\<close>

definition scriptTag :: "jsstring \<Rightarrow> jsstring" where
  "scriptTag path = js ''<script src='' @ [dquote] @ path @ [dquote] @ js '' defer></script>''"

definition runUrlLine :: "jsstring \<Rightarrow> jsstring" where
  "runUrlLine endpoint =
     js ''var runURL = '' @ [dquote] @ js ''/cgi-bin/static/'' @ endpoint @ [dquote] @ js '';''"

text \<open>A list of requests that are all discovery requests.\<close>

definition onlyGets :: "request list \<Rightarrow> bool" where
  "onlyGets rs \<longleftrightarrow> (\<forall>q \<in> set rs. \<exists>url. q = GET url)"

subsection \<open>Example data\<close>

text \<open>
  The diagnostics of the specification's example; a landing page and a frontend script
  on which the two discovery patterns match; a server that answers the two discovery
  requests with them and any POST with status 200, and one that answers everything with
  status 404; an environment around a server and a list of interrupts, in which every
  request takes 20 ms and every response body decompresses to the example text; and
  states of the world with an empty, a fresh, a freshly resolved and an expired cache.
\<close>

definition exampleDiagnostics :: jsstring where
  "exampleDiagnostics = js ''dbg'' @ [LF] @ js ''Real time: 0.12 s'' @ [LF] @ js ''User time: 0.03 s'' @ [LF]
     @ js ''Sys. time: 0.01 s'' @ [LF] @ js ''CPU share: 33.3 %'' @ [LF] @ js ''Exit code: 0''"

definition landingPage :: jsstring where
  "landingPage = js ''<head><script src='' @ [dquote] @ js ''/static/0a1b-frontend.js'' @ [dquote]
     @ js '' defer></script></head>''"

definition frontendJs :: jsstring where
  "frontendJs = js ''var a = 1;'' @ [LF] @ js ''var runURL = '' @ [dquote]
     @ js ''/cgi-bin/static/fb67-run'' @ [dquote] @ js '';'' @ [LF] @ js ''var b;''"

definition okResponse :: "jsstring \<Rightarrow> byte list \<Rightarrow> response" where
  "okResponse t b = \<lparr> status = 200, statusText = js ''OK'', bodyText = t, bodyBytes = b \<rparr>"

definition notFound :: response where
  "notFound = \<lparr> status = 404, statusText = js ''Not Found'', bodyText = [], bodyBytes = [] \<rparr>"

definition demoServe :: "nat \<Rightarrow> request \<Rightarrow> settled" where
  "demoServe n req =
     (case req of
        GET url \<Rightarrow>
          if url = TIO_BASE_URL @ js ''/'' then Fulfilled (okResponse landingPage [])
          else if url = TIO_BASE_URL @ js ''/static/0a1b-frontend.js''
          then Fulfilled (okResponse frontendJs [])
          else Fulfilled notFound
      | POST url body \<Rightarrow> Fulfilled (okResponse [] [0x1F, 0x8B]))"

definition demoEnv :: "(nat \<Rightarrow> request \<Rightarrow> settled) \<Rightarrow> interrupt list \<Rightarrow> env" where
  "demoEnv srv ints =
     \<lparr> serve = srv, elapsed = (\<lambda>n. 20), interrupts = (\<lambda>n. ints),
       randomBytesHex = (\<lambda>n. js ''000102030405060708090a0b0c0d0e0f''),
       deflateRawSync = (\<lambda>b. b),
       gunzipSync = (\<lambda>b. Some (js ''0123456789abcdef'' @ js ''hello'' @ js ''0123456789abcdef'' @ exampleDiagnostics)),
       numberToString = (\<lambda>x. case x of Fin q \<Rightarrow> decimal (nat \<lfloor>q\<rfloor>) | _ \<Rightarrow> js ''NaN'') \<rparr>"

definition coldWorld :: world where
  "coldWorld = \<lparr> runUrl = None, nextRefreshAt = 0, now = 1000000, requests = [], timers = [],
                 signalAborted = False \<rparr>"

definition warmWorld :: world where
  "warmWorld = \<lparr> runUrl = Some (js ''fb67-run''), nextRefreshAt = 1850000, now = 1000000,
                 requests = [], timers = [], signalAborted = False \<rparr>"

definition demoOptions :: TioRunOptions where
  "demoOptions = \<lparr> req_language = js ''python3'', req_stdin = Some (js ''1 2''),
                   req_timeout = Fin 2000, req_argv = None, req_cflags = None,
                   req_signal = Some AbortSignal \<rparr>"

definition resolvedWorld :: world where
  "resolvedWorld =
     \<lparr> runUrl = Some (js ''fb67-run''), nextRefreshAt = 1850040, now = 1000040,
       requests = [GET (js ''https://tio.run/''), GET (js ''https://tio.run/static/0a1b-frontend.js'')],
       timers = [], signalAborted = False \<rparr>"

definition downServe :: "nat \<Rightarrow> request \<Rightarrow> settled" where
  "downServe n req = Fulfilled notFound"

definition expiredWorld :: world where
  "expiredWorld = \<lparr> runUrl = Some (js ''fb67-run''), nextRefreshAt = 1850000, now = 1850000,
                    requests = [], timers = [], signalAborted = False \<rparr>"

definition coldAbortedWorld :: world where
  "coldAbortedWorld = coldWorld\<lparr> signalAborted := True \<rparr>"




definition truncatedContent :: jsstring where
  "truncatedContent = js ''0123456789abcdef'' @ js ''hello'' @ js ''0123456789abcdef''
     @ js ''Real time: 0.12 s'' @ [LF] @ js ''killed''"

definition cOptions :: NormalizedOptions where
  "cOptions = \<lparr> language = js ''c-gcc'', stdin = js ''42'', timeout = Fin 500,
                 argv = [js ''-v''], cflags = [], signal = None \<rparr>"

text \<open>
  Further examples: options whose language, input and only argument are the one
  character U+20AC; a diagnostics section whose CPU share is \<^verbatim>\<open>..\<close>, and a response
  text around it; a server that answers its first request with status 404 and the
  later ones as \<open>demoServe\<close> does; and the states of the world after a failed refresh
  of the expired cache and after the retry that follows it.
\<close>

definition euroOptions :: NormalizedOptions where
  "euroOptions = \<lparr> language = [0x20AC], stdin = [0x20AC], timeout = Fin 500,
                    argv = [[0x20AC]], cflags = [], signal = None \<rparr>"

definition dotsDiagnostics :: jsstring where
  "dotsDiagnostics = js ''Real time: 0.12 s'' @ [LF] @ js ''User time: 0.03 s'' @ [LF]
     @ js ''Sys. time: 0.01 s'' @ [LF] @ js ''CPU share: .. %'' @ [LF] @ js ''Exit code: 0''"

definition dotsContent :: jsstring where
  "dotsContent = js ''0123456789abcdef'' @ js ''hello'' @ js ''0123456789abcdef'' @ dotsDiagnostics"

definition flakyServe :: "nat \<Rightarrow> request \<Rightarrow> settled" where
  "flakyServe n req = (if n = 0 then Fulfilled notFound else demoServe n req)"

definition failedWorld :: world where
  "failedWorld = expiredWorld\<lparr> requests := [GET (js ''https://tio.run/'')], now := 1850020 \<rparr>"

definition retriedWorld :: world where
  "retriedWorld =
     \<lparr> runUrl = Some (js ''fb67-run''), nextRefreshAt = 2700060, now = 1850060,
       requests = [GET (js ''https://tio.run/''), GET (js ''https://tio.run/''),
                   GET (js ''https://tio.run/static/0a1b-frontend.js'')],
       timers = [], signalAborted = False \<rparr>"

section \<open>Properties\<close>

subsection \<open>UTF-8 lengths\<close>

lemma length_encodeCodePoint:
  "length (encodeCodePoint cp) =
     (if cp < 0x80 then 1 else if cp < 0x800 then 2 else if cp < 0x10000 then 3 else 4)"
  by (simp add: encodeCodePoint_def)

lemma surrogate_not_short: "isHighSurrogate u \<or> isLowSurrogate u \<Longrightarrow> \<not> u < 0x800"
  by (auto simp: isHighSurrogate_def isLowSurrogate_def word_less_nat_alt word_le_nat_alt)

lemma length_encodeUnit: "length (encodeUnit u) = unitByteLength u"
proof (cases "isHighSurrogate u \<or> isLowSurrogate u")
  case True
  then have big: "\<not> u < 0x800" by (rule surrogate_not_short)
  then have "\<not> u < 0x80" by (simp add: word_less_nat_alt)
  with True big show ?thesis by (simp add: encodeUnit_def unitByteLength_def)
next
  case False
  have "unat u < 0x10000" using unsigned_less [of u] by simp
  with False show ?thesis
    by (simp add: encodeUnit_def unitByteLength_def length_encodeCodePoint word_less_nat_alt)
qed

lemma length_encode_pair: "length (encodeCodePoint (pairCodePoint u v)) = 4"
  by (simp add: length_encodeCodePoint pairCodePoint_def)

lemma length_utf8Encode: "length (utf8Encode s) = byteLength s"
  by (induction s rule: byteLength.induct) (simp_all add: length_encodeUnit length_encode_pair)

lemma utf8Encode_Cons_plain:
  "\<not> isHighSurrogate u \<Longrightarrow> utf8Encode (u # s) = encodeUnit u @ utf8Encode s"
  by (cases s) simp_all

text \<open>
  Encoding distributes over a concatenation unless the cut separates a surrogate pair.
\<close>

lemma utf8Encode_append:
  "xs = [] \<or> \<not> isHighSurrogate (last xs) \<or> ys = [] \<or> \<not> isLowSurrogate (hd ys) \<Longrightarrow>
   utf8Encode (xs @ ys) = utf8Encode xs @ utf8Encode ys"
proof (induction xs rule: utf8Encode.induct)
  case 1
  then show ?case by simp
next
  case (2 u)
  then show ?case by (cases ys) auto
next
  case (3 u v vs)
  then show ?case by (cases vs) auto
qed

lemma NUL_plain: "\<not> isHighSurrogate NUL" "\<not> isLowSurrogate NUL"
  by (simp_all add: NUL_def isHighSurrogate_def isLowSurrogate_def)

lemma encodeUnit_NUL: "encodeUnit NUL = [0]"
  by (simp add: encodeUnit_def NUL_plain) (simp add: NUL_def encodeCodePoint_def)

lemma utf8Encode_NUL_Cons: "utf8Encode (NUL # s) = 0 # utf8Encode s"
  by (simp add: utf8Encode_Cons_plain NUL_plain encodeUnit_NUL)

lemma utf8Encode_snoc_NUL: "utf8Encode (s @ NUL # t) = utf8Encode s @ 0 # utf8Encode t"
  by (simp add: utf8Encode_append NUL_plain utf8Encode_NUL_Cons)

lemma ascii_not_surrogate: "c < 0x80 \<Longrightarrow> \<not> isHighSurrogate c \<and> \<not> isLowSurrogate c"
  by (auto simp: isHighSurrogate_def isLowSurrogate_def word_less_nat_alt word_le_nat_alt)

lemma utf8Encode_ascii_append:
  assumes "isAscii a"
  shows "utf8Encode (a @ s) = utf8Encode a @ utf8Encode s"
proof (cases "a = []")
  case True
  then show ?thesis by simp
next
  case False
  with assms have "last a < 0x80" by (simp add: isAscii_def)
  then have "\<not> isHighSurrogate (last a)" by (simp add: ascii_not_surrogate)
  then show ?thesis by (simp add: utf8Encode_append)
qed

lemma utf8Encode_append_ascii:
  assumes "isAscii a" and "a \<noteq> []"
  shows "utf8Encode (s @ a @ t) = utf8Encode s @ utf8Encode a @ utf8Encode t"
proof -
  from assms have "hd a < 0x80" by (simp add: isAscii_def)
  with assms have "\<not> isLowSurrogate (hd (a @ t))" by (simp add: ascii_not_surrogate)
  then have "utf8Encode (s @ a @ t) = utf8Encode s @ utf8Encode (a @ t)"
    by (simp add: utf8Encode_append)
  with assms show ?thesis by (simp add: utf8Encode_ascii_append)
qed

lemma utf8Encode_nulTerminated:
  "utf8Encode (nulTerminated xs @ t) = concat (map (\<lambda>x. utf8Encode x @ [0]) xs) @ utf8Encode t"
  by (induction xs) (simp_all add: nulTerminated_def utf8Encode_snoc_NUL)

lemma digitChar_ascii:
  assumes "d < 10"
  shows "digitChar d < 0x80"
proof -
  have "unat (of_nat (48 + d) :: jschar) = (48 + d) mod 2 ^ 16"
    by (simp only: unat_of_nat len_of_numeral_defs) simp
  with assms show ?thesis
    by (simp only: digitChar_def word_less_nat_alt) simp
qed

lemma decimal_ascii: "isAscii (decimal n)"
proof (induction n rule: decimal.induct)
  case (1 n)
  show ?case
  proof (cases "n < 10")
    case True
    then show ?thesis by (subst decimal.simps) (simp add: isAscii_def digitChar_ascii)
  next
    case False
    then have "isAscii (decimal (n div 10))" using 1 by simp
    moreover have "digitChar (n mod 10) < 0x80" by (simp add: digitChar_ascii)
    ultimately show ?thesis using False by (subst decimal.simps) (auto simp add: isAscii_def)
  qed
qed

lemma names_ascii:
  "isAscii (js ''Vargs'')" "isAscii (js ''Vlang'')" "isAscii (js ''VTIO_CFLAGS'')"
  "isAscii (js ''VTIO_OPTIONS'')" "isAscii (js ''F.code.tio'')" "isAscii (js ''F.input.tio'')"
  "isAscii (js ''R'')" "isAscii (js ''0'')" "isAscii (js ''1'')"
  by (simp_all add: isAscii_def js_def)

lemma decimal_small: "n < 10 \<Longrightarrow> decimal n = [digitChar n]"
  by (subst decimal.simps) simp

subsection \<open>Matching\<close>

lemma tryDown_SomeD:
  "tryDown f lo k = Some r \<Longrightarrow> \<exists>j. lo \<le> j \<and> j \<le> k \<and> f j = Some r"
proof (induction k)
  case 0
  then show ?case by (auto split: if_splits)
next
  case (Suc k)
  show ?case
  proof (cases "f (Suc k)")
    case None
    with Suc.prems have "tryDown f lo k = Some r" by (auto split: if_splits)
    with Suc.IH obtain j where "lo \<le> j" "j \<le> k" "f j = Some r" by blast
    then show ?thesis by (intro exI [of _ j]) simp
  next
    case (Some a)
    with Suc.prems have "lo \<le> Suc k" "a = r" by (auto split: if_splits)
    with Some show ?thesis by (intro exI [of _ "Suc k"]) simp
  qed
qed

lemma tryDown_hit:
  "lo \<le> j \<Longrightarrow> j \<le> k \<Longrightarrow> f j \<noteq> None \<Longrightarrow> tryDown f lo k \<noteq> None"
proof (induction k)
  case 0
  then show ?case by simp
next
  case (Suc k)
  show ?case
  proof (cases "j = Suc k")
    case True
    with Suc.prems show ?thesis by (auto split: option.splits)
  next
    case False
    with Suc.prems have "j \<le> k" by simp
    with Suc have "tryDown f lo k \<noteq> None" by simp
    moreover from Suc.prems have "\<not> Suc k < lo" by simp
    ultimately show ?thesis by (auto split: option.splits)
  qed
qed

lemma tryDown_None_cong:
  assumes "\<And>j. (f j = None) = (g j = None)"
  shows "(tryDown f lo k = None) = (tryDown g lo k = None)"
proof (induction k)
  case 0
  from assms [of 0] show ?case by simp
next
  case (Suc k)
  from assms [of "Suc k"] Suc show ?case
    by (cases "f (Suc k)"; cases "g (Suc k)") simp_all
qed

lemma take_le_takeWhile:
  "k \<le> length (takeWhile P s) \<Longrightarrow> list_all P (take k s)"
proof -
  assume k: "k \<le> length (takeWhile P s)"
  have "take k s = take k (takeWhile P s @ dropWhile P s)" by simp
  also have "\<dots> = take k (takeWhile P s)" using k by (simp del: takeWhile_dropWhile_id)
  finally have "set (take k s) \<subseteq> set (takeWhile P s)" by (simp add: set_take_subset)
  then show ?thesis by (auto simp: list_all_iff dest: set_takeWhileD)
qed

lemma matchHere_LitD:
  assumes "matchHere (Lit l # r) prev s (caps, None) = Some m"
  shows "\<exists>t p. s = l @ t \<and> matchHere r p t (caps, None) = Some m"
proof -
  from assms have p: "prefix l s"
    and m: "matchHere r (if l = [] then prev else Some (last l)) (drop (length l) s) (caps, None) = Some m"
    by (auto split: if_splits)
  from p obtain t where "s = l @ t" by (auto simp: prefix_def)
  with m show ?thesis by auto
qed

lemma matchHere_groupD:
  assumes "matchHere (Open # Rep lo cls # Close # r) prev s (caps, None) = Some m"
  shows "\<exists>g t p. s = g @ t \<and> lo \<le> length g \<and> list_all cls g
           \<and> matchHere r p t (caps @ [g], None) = Some m"
proof -
  from assms obtain k where k: "lo \<le> k" "k \<le> length (takeWhile cls s)"
    and m: "matchHere r (if k = 0 then prev else Some (s ! (k - 1))) (drop k s)
              (caps @ [take k s], None) = Some m"
    by (auto dest!: tryDown_SomeD)
  have "k \<le> length s" using k(2) length_takeWhile_le [of cls s] by simp
  then have "length (take k s) = k" by simp
  with k m take_le_takeWhile [OF k(2)] show ?thesis
    by (intro exI [of _ "take k s"] exI [of _ "drop k s"]) auto
qed

lemma matchHere_EndD:
  "matchHere [End] prev s (caps, None) = Some m \<Longrightarrow> s = [] \<and> m = caps"
  by (auto split: if_splits)

lemma DEBUG_REGEX_sound:
  assumes "matchHere DEBUG_REGEX prev s ([], None) = Some m"
  shows "\<exists>debug rt ut st cs ec.
           m = [debug, rt, ut, st, cs, ec] \<and> s = debug @ metricsBlock rt ut st cs ec
           \<and> floatToken rt \<and> floatToken ut \<and> floatToken st \<and> floatToken cs \<and> intToken ec"
proof -
  from assms [unfolded DEBUG_REGEX_def] obtain debug t0 p0 where
    s0: "s = debug @ t0" and m0: "matchHere
      [Lit (js ''Real time: ''), Open, Rep 1 isDigitOrDot, Close,
      Lit (js '' s'' @ [LF] @ js ''User time: ''), Open, Rep 1 isDigitOrDot, Close,
      Lit (js '' s'' @ [LF] @ js ''Sys. time: ''), Open, Rep 1 isDigitOrDot, Close,
      Lit (js '' s'' @ [LF] @ js ''CPU share: ''), Open, Rep 1 isDigitOrDot, Close,
      Lit (js '' %'' @ [LF] @ js ''Exit code: ''), Open, Rep 1 isDigit, Close,
      End] p0 t0 ([] @ [debug], None) = Some m"
    by (blast dest: matchHere_groupD)
  from matchHere_LitD [OF m0] obtain t1 p1 where
    s1: "t0 = js ''Real time: '' @ t1" and m1: "matchHere
      [Open, Rep 1 isDigitOrDot, Close,
      Lit (js '' s'' @ [LF] @ js ''User time: ''), Open, Rep 1 isDigitOrDot, Close,
      Lit (js '' s'' @ [LF] @ js ''Sys. time: ''), Open, Rep 1 isDigitOrDot, Close,
      Lit (js '' s'' @ [LF] @ js ''CPU share: ''), Open, Rep 1 isDigitOrDot, Close,
      Lit (js '' %'' @ [LF] @ js ''Exit code: ''), Open, Rep 1 isDigit, Close,
      End] p1 t1 ([] @ [debug], None) = Some m"
    by blast
  from matchHere_groupD [OF m1] obtain rt t2 p2 where
    s2: "t1 = rt @ t2" and rt: "1 \<le> length rt" "list_all isDigitOrDot rt" and m2: "matchHere
      [Lit (js '' s'' @ [LF] @ js ''User time: ''), Open, Rep 1 isDigitOrDot, Close,
      Lit (js '' s'' @ [LF] @ js ''Sys. time: ''), Open, Rep 1 isDigitOrDot, Close,
      Lit (js '' s'' @ [LF] @ js ''CPU share: ''), Open, Rep 1 isDigitOrDot, Close,
      Lit (js '' %'' @ [LF] @ js ''Exit code: ''), Open, Rep 1 isDigit, Close,
      End] p2 t2 (([] @ [debug]) @ [rt], None) = Some m"
    by blast
  from matchHere_LitD [OF m2] obtain t3 p3 where
    s3: "t2 = (js '' s'' @ [LF] @ js ''User time: '') @ t3" and m3: "matchHere
      [Open, Rep 1 isDigitOrDot, Close,
      Lit (js '' s'' @ [LF] @ js ''Sys. time: ''), Open, Rep 1 isDigitOrDot, Close,
      Lit (js '' s'' @ [LF] @ js ''CPU share: ''), Open, Rep 1 isDigitOrDot, Close,
      Lit (js '' %'' @ [LF] @ js ''Exit code: ''), Open, Rep 1 isDigit, Close,
      End] p3 t3 (([] @ [debug]) @ [rt], None) = Some m"
    by blast
  from matchHere_groupD [OF m3] obtain ut t4 p4 where
    s4: "t3 = ut @ t4" and ut: "1 \<le> length ut" "list_all isDigitOrDot ut" and m4: "matchHere
      [Lit (js '' s'' @ [LF] @ js ''Sys. time: ''), Open, Rep 1 isDigitOrDot, Close,
      Lit (js '' s'' @ [LF] @ js ''CPU share: ''), Open, Rep 1 isDigitOrDot, Close,
      Lit (js '' %'' @ [LF] @ js ''Exit code: ''), Open, Rep 1 isDigit, Close,
      End] p4 t4 ((([] @ [debug]) @ [rt]) @ [ut], None) = Some m"
    by blast
  from matchHere_LitD [OF m4] obtain t5 p5 where
    s5: "t4 = (js '' s'' @ [LF] @ js ''Sys. time: '') @ t5" and m5: "matchHere
      [Open, Rep 1 isDigitOrDot, Close,
      Lit (js '' s'' @ [LF] @ js ''CPU share: ''), Open, Rep 1 isDigitOrDot, Close,
      Lit (js '' %'' @ [LF] @ js ''Exit code: ''), Open, Rep 1 isDigit, Close,
      End] p5 t5 ((([] @ [debug]) @ [rt]) @ [ut], None) = Some m"
    by blast
  from matchHere_groupD [OF m5] obtain st t6 p6 where
    s6: "t5 = st @ t6" and st: "1 \<le> length st" "list_all isDigitOrDot st" and m6: "matchHere
      [Lit (js '' s'' @ [LF] @ js ''CPU share: ''), Open, Rep 1 isDigitOrDot, Close,
      Lit (js '' %'' @ [LF] @ js ''Exit code: ''), Open, Rep 1 isDigit, Close,
      End] p6 t6 (((([] @ [debug]) @ [rt]) @ [ut]) @ [st], None) = Some m"
    by blast
  from matchHere_LitD [OF m6] obtain t7 p7 where
    s7: "t6 = (js '' s'' @ [LF] @ js ''CPU share: '') @ t7" and m7: "matchHere
      [Open, Rep 1 isDigitOrDot, Close,
      Lit (js '' %'' @ [LF] @ js ''Exit code: ''), Open, Rep 1 isDigit, Close,
      End] p7 t7 (((([] @ [debug]) @ [rt]) @ [ut]) @ [st], None) = Some m"
    by blast
  from matchHere_groupD [OF m7] obtain cs t8 p8 where
    s8: "t7 = cs @ t8" and cs: "1 \<le> length cs" "list_all isDigitOrDot cs" and m8: "matchHere
      [Lit (js '' %'' @ [LF] @ js ''Exit code: ''), Open, Rep 1 isDigit, Close,
      End] p8 t8 ((((([] @ [debug]) @ [rt]) @ [ut]) @ [st]) @ [cs], None) = Some m"
    by blast
  from matchHere_LitD [OF m8] obtain t9 p9 where
    s9: "t8 = (js '' %'' @ [LF] @ js ''Exit code: '') @ t9" and m9: "matchHere
      [Open, Rep 1 isDigit, Close, End] p9 t9
        ((((([] @ [debug]) @ [rt]) @ [ut]) @ [st]) @ [cs], None) = Some m"
    by blast
  from matchHere_groupD [OF m9] obtain ec t10 p10 where
    s10: "t9 = ec @ t10" and ec: "1 \<le> length ec" "list_all isDigit ec" and m10: "matchHere
      [End] p10 t10 (((((([] @ [debug]) @ [rt]) @ [ut]) @ [st]) @ [cs]) @ [ec], None) = Some m"
    by blast
  from matchHere_EndD [OF m10] have fin: "t10 = []" "m = [debug, rt, ut, st, cs, ec]" by simp_all
  have "s = debug @ metricsBlock rt ut st cs ec"
    by (simp add: s0 s1 s2 s3 s4 s5 s6 s7 s8 s9 s10 fin metricsBlock_def)
  moreover from rt ut st cs ec have "floatToken rt" "floatToken ut" "floatToken st" "floatToken cs"
      "intToken ec"
    by (auto simp: floatToken_def intToken_def)
  ultimately show ?thesis using fin by blast
qed

lemma fetchText_frame:
  assumes "fetchText e path w = (r, w')"
  shows "runUrl w' = runUrl w \<and> nextRefreshAt w' = nextRefreshAt w \<and> timers w' = timers w
         \<and> requests w' = requests w @ [GET (TIO_BASE_URL @ path)]
         \<and> (signalAborted w \<longrightarrow> signalAborted w')
         \<and> now w' = now w + int (elapsed e (length (requests w)))"
  using assms by (auto simp: fetchText_def Let_def split: settled.splits if_splits)

lemma fetchText_result:
  "fst (fetchText e path w) =
     (case serve e (length (requests w)) (GET (TIO_BASE_URL @ path)) of
        RejectedWith name \<Rightarrow> Inl (Rejected name)
      | Fulfilled r \<Rightarrow> if \<not> ok r then Inl (FetchFailed path (status r)) else Inr (bodyText r))"
  by (simp add: fetchText_def Let_def split: settled.splits)

lemma ensureRunUrl_fresh:
  "runUrl w \<noteq> None \<Longrightarrow> now w < nextRefreshAt w \<Longrightarrow> ensureRunUrl e w = (Inr (), w)"
  by (simp add: ensureRunUrl_def)

text \<open>The five ways through \<open>ensureRunUrl\<close> when the cache is empty or expired.\<close>

lemma ensureRunUrl_stale_cases [consumes 1, case_names landing_failed no_script script_failed no_url resolved]:
  assumes stale: "\<not> (runUrl w \<noteq> None \<and> now w < nextRefreshAt w)"
  obtains
    (landing_failed) err w1 where
      "fetchText e (js ''/'') w = (Inl err, w1)" "ensureRunUrl e w = (Inl err, w1)"
  | (no_script) html w1 where
      "fetchText e (js ''/'') w = (Inr html, w1)"
      "regexMatch SCRIPT_REGEX html = None \<or> (\<exists>m. regexMatch SCRIPT_REGEX html = Some m \<and> m ! 0 = [])"
      "ensureRunUrl e w = (Inl NoFrontendScript, w1)"
  | (script_failed) html w1 m err w2 where
      "fetchText e (js ''/'') w = (Inr html, w1)"
      "regexMatch SCRIPT_REGEX html = Some m" "m ! 0 \<noteq> []"
      "fetchText e (m ! 0) w1 = (Inl err, w2)" "ensureRunUrl e w = (Inl err, w2)"
  | (no_url) html w1 m script w2 where
      "fetchText e (js ''/'') w = (Inr html, w1)"
      "regexMatch SCRIPT_REGEX html = Some m" "m ! 0 \<noteq> []"
      "fetchText e (m ! 0) w1 = (Inr script, w2)"
      "regexMatch RUN_URL_REGEX script = None \<or> (\<exists>m'. regexMatch RUN_URL_REGEX script = Some m' \<and> m' ! 0 = [])"
      "ensureRunUrl e w = (Inl NoExecutionUrl, w2)"
  | (resolved) html w1 m script w2 m' where
      "fetchText e (js ''/'') w = (Inr html, w1)"
      "regexMatch SCRIPT_REGEX html = Some m" "m ! 0 \<noteq> []"
      "fetchText e (m ! 0) w1 = (Inr script, w2)"
      "regexMatch RUN_URL_REGEX script = Some m'" "m' ! 0 \<noteq> []"
      "ensureRunUrl e w =
         (Inr (), w2\<lparr> runUrl := Some (m' ! 0), nextRefreshAt := now w2 + RUN_URL_REFRESH_MS \<rparr>)"
proof -
  obtain r1 w1 where f1: "fetchText e (js ''/'') w = (r1, w1)" by (cases "fetchText e (js ''/'') w")
  show thesis
  proof (cases r1)
    case (Inl err)
    with stale f1 show thesis by (intro landing_failed [of err w1]) (auto simp: ensureRunUrl_def)
  next
    case (Inr html)
    show thesis
    proof (cases "regexMatch SCRIPT_REGEX html")
      case None
      with stale f1 Inr show thesis by (intro no_script [of html w1]) (auto simp: ensureRunUrl_def)
    next
      case (Some m)
      show thesis
      proof (cases "m ! 0 = []")
        case True
        with stale f1 Inr Some show thesis
          by (intro no_script [of html w1]) (auto simp: ensureRunUrl_def)
      next
        case ne: False
        obtain r2 w2 where f2: "fetchText e (m ! 0) w1 = (r2, w2)" by (cases "fetchText e (m ! 0) w1")
        show thesis
        proof (cases r2)
          case (Inl err)
          with stale f1 Inr Some ne f2 show thesis
            by (intro script_failed [of html w1 m err w2]) (auto simp: ensureRunUrl_def)
        next
          case inr2: (Inr script)
          show thesis
          proof (cases "regexMatch RUN_URL_REGEX script")
            case None
            with stale f1 Inr Some ne f2 inr2 show thesis
              by (intro no_url [of html w1 m script w2]) (auto simp: ensureRunUrl_def)
          next
            case some2: (Some m')
            show thesis
            proof (cases "m' ! 0 = []")
              case True
              with stale f1 Inr Some ne f2 inr2 some2 show thesis
                by (intro no_url [of html w1 m script w2]) (auto simp: ensureRunUrl_def)
            next
              case False
              with stale f1 Inr Some ne f2 inr2 some2 show thesis
                by (intro resolved [of html w1 m script w2 m']) (auto simp: ensureRunUrl_def)
            qed
          qed
        qed
      qed
    qed
  qed
qed

lemma ensureRunUrl_frame:
  assumes "ensureRunUrl e w = (r, w')"
  shows "timers w' = timers w \<and> (signalAborted w \<longrightarrow> signalAborted w')
       \<and> (\<exists>gets. requests w' = requests w @ gets \<and> onlyGets gets
             \<and> (\<not> (runUrl w \<noteq> None \<and> now w < nextRefreshAt w) \<longrightarrow> gets \<noteq> []))"
proof (cases "runUrl w \<noteq> None \<and> now w < nextRefreshAt w")
  case True
  with assms show ?thesis by (simp add: ensureRunUrl_def onlyGets_def)
next
  case False
  have grow: "\<exists>gets. requests v = requests w @ gets \<and> onlyGets gets \<and> gets \<noteq> []"
    if "requests v = requests w @ [GET a] \<or> requests v = requests w @ [GET a, GET b]" for v a b
    using that by (auto simp: onlyGets_def)
  from False show ?thesis
  proof (cases rule: ensureRunUrl_stale_cases [where e = e])
    case (landing_failed err w1)
    with assms fetchText_frame [OF landing_failed(1)] grow [of w'] show ?thesis by auto
  next
    case (no_script html w1)
    with assms fetchText_frame [OF no_script(1)] grow [of w'] show ?thesis by auto
  next
    case (script_failed html w1 m err w2)
    with assms fetchText_frame [OF script_failed(1)] fetchText_frame [OF script_failed(4)]
      grow [of w'] show ?thesis by auto
  next
    case (no_url html w1 m script w2)
    with assms fetchText_frame [OF no_url(1)] fetchText_frame [OF no_url(4)]
      grow [of w'] show ?thesis by auto
  next
    case (resolved html w1 m script w2 m')
    with assms fetchText_frame [OF resolved(1)] fetchText_frame [OF resolved(4)]
      grow [of w'] show ?thesis by auto
  qed
qed

lemma ensureRunUrl_error_keeps_cache:
  assumes "ensureRunUrl e w = (Inl err, w')"
  shows "runUrl w' = runUrl w \<and> nextRefreshAt w' = nextRefreshAt w"
proof (cases "runUrl w \<noteq> None \<and> now w < nextRefreshAt w")
  case True
  with assms show ?thesis by (simp add: ensureRunUrl_def)
next
  case False
  then show ?thesis
  proof (cases rule: ensureRunUrl_stale_cases [where e = e])
    case (landing_failed err w1)
    with assms fetchText_frame [OF landing_failed(1)] show ?thesis by auto
  next
    case (no_script html w1)
    with assms fetchText_frame [OF no_script(1)] show ?thesis by auto
  next
    case (script_failed html w1 m err w2)
    with assms fetchText_frame [OF script_failed(1)] fetchText_frame [OF script_failed(4)]
    show ?thesis by auto
  next
    case (no_url html w1 m script w2)
    with assms fetchText_frame [OF no_url(1)] fetchText_frame [OF no_url(4)]
    show ?thesis by auto
  next
    case (resolved html w1 m script w2 m')
    with assms show ?thesis by simp
  qed
qed

lemma runActions_Cons: "runActions (a # as) f = runActions as (perform a f)"
  by (simp add: runActions_def)

lemma runActions_flags:
  "timedOutFlag (runActions as f) \<longleftrightarrow> timedOutFlag f \<or> SetTimedOut \<in> set as"
  "signalFlag (runActions as f) \<longleftrightarrow> signalFlag f \<or> MarkSignalAborted \<in> set as"
  "controllerAborted (runActions as f) \<longleftrightarrow> controllerAborted f \<or> AbortController \<in> set as"
proof -
  have "(timedOutFlag (runActions as f) \<longleftrightarrow> timedOutFlag f \<or> SetTimedOut \<in> set as)
      \<and> (signalFlag (runActions as f) \<longleftrightarrow> signalFlag f \<or> MarkSignalAborted \<in> set as)
      \<and> (controllerAborted (runActions as f) \<longleftrightarrow> controllerAborted f \<or> AbortController \<in> set as)"
  proof (induction as arbitrary: f)
    case Nil
    then show ?case by (simp add: runActions_def)
  next
    case (Cons a as)
    from Cons.IH [of "perform a f"] show ?case
      by (cases a) (auto simp: runActions_Cons)
  qed
  then show "timedOutFlag (runActions as f) \<longleftrightarrow> timedOutFlag f \<or> SetTimedOut \<in> set as"
    "signalFlag (runActions as f) \<longleftrightarrow> signalFlag f \<or> MarkSignalAborted \<in> set as"
    "controllerAborted (runActions as f) \<longleftrightarrow> controllerAborted f \<or> AbortController \<in> set as"
    by simp_all
qed

lemma callback_members:
  "SetTimedOut \<in> set (callback i) \<longleftrightarrow> i = TimerFired"
  "MarkSignalAborted \<in> set (callback i) \<longleftrightarrow> i = SignalAborted"
  "AbortController \<in> set (callback i)"
  by (cases i; simp)+

lemma actions_members:
  "SetTimedOut \<in> set (actions options is) \<longleftrightarrow> timerArmed options \<and> TimerFired \<in> set is"
  "MarkSignalAborted \<in> set (actions options is) \<longleftrightarrow> signal options \<noteq> None \<and> SignalAborted \<in> set is"
  "AbortController \<in> set (actions options is) \<longleftrightarrow> filter (effective options) is \<noteq> []"
  by (auto simp: actions_def callback_members filter_empty_conv)

text \<open>In every prefix of the callbacks' actions, an abort comes after the record of its cause.\<close>

lemma abort_after_record:
  assumes "AbortController \<in> set (take k (concat (map callback ints)))"
  shows "SetTimedOut \<in> set (take k (concat (map callback ints)))
       \<or> MarkSignalAborted \<in> set (take k (concat (map callback ints)))"
proof (cases ints)
  case Nil
  with assms show ?thesis by simp
next
  case (Cons j ints')
  obtain x where cb: "callback j = [x, AbortController]" and x: "x = SetTimedOut \<or> x = MarkSignalAborted"
    by (cases j) auto
  show ?thesis
  proof (cases k)
    case 0
    with assms show ?thesis by simp
  next
    case (Suc k')
    with Cons cb x show ?thesis by auto
  qed
qed

lemma executeRequest_unfold:
  assumes "\<not> (signal options \<noteq> None \<and> signalAborted w)"
  shows "fst (executeRequest e body options w) =
     (let n = length (requests w);
          f = runActions (actions options (interrupts e n))
                \<lparr> timedOutFlag = False, controllerAborted = False, signalFlag = signalAborted w \<rparr>
      in if controllerAborted f then catchBlock options f (Rejected ''AbortError'')
         else (case serve e n (POST (postUrl e w) body) of
                 RejectedWith name \<Rightarrow> catchBlock options f (Rejected name)
               | Fulfilled r \<Rightarrow>
                   if \<not> ok r then Inl (BadResponse (status r) (statusText r))
                   else Inr (Some (bodyBytes r), False)))"
  using assms
  by (auto simp: executeRequest_def Let_def postUrl_def split: settled.splits)

lemma executeRequest_preaborted:
  "signal options \<noteq> None \<Longrightarrow> signalAborted w \<Longrightarrow>
   executeRequest e body options w =
     (Inl ExecutionAbortedError,
      if timerArmed options then w\<lparr> timers := timers w @ [timeout options] \<rparr> else w)"
  by (simp add: executeRequest_def Let_def)

lemma executeRequest_frame:
  assumes "executeRequest e body options w = (r, w')"
  shows "runUrl w' = runUrl w \<and> nextRefreshAt w' = nextRefreshAt w
       \<and> timers w' = (if timerArmed options then timers w @ [timeout options] else timers w)
       \<and> (requests w' = requests w \<or> requests w' = requests w @ [POST (postUrl e w) body])"
  using assms
  by (auto simp: executeRequest_def Let_def postUrl_def split: settled.splits if_splits)

lemma searchFrom_SomeD:
  "searchFrom re prev s = Some m \<Longrightarrow>
   \<exists>pre suf p. s = pre @ suf \<and> matchHere re p suf ([], None) = Some m"
proof (induction s arbitrary: prev)
  case Nil
  then show ?case by auto
next
  case (Cons c cs)
  show ?case
  proof (cases "matchHere re prev (c # cs) ([], None)")
    case None
    with Cons.prems have "searchFrom re (Some c) cs = Some m" by simp
    with Cons.IH obtain pre suf p where "cs = pre @ suf" "matchHere re p suf ([], None) = Some m"
      by blast
    then show ?thesis by (intro exI [of _ "c # pre"] exI [of _ suf] exI [of _ p]) simp
  next
    case (Some a)
    with Cons.prems have "matchHere re prev (c # cs) ([], None) = Some m" by simp
    then show ?thesis by (intro exI [of _ "[]"] exI [of _ "c # cs"] exI [of _ prev]) simp
  qed
qed

text \<open>Whether a pattern without \<open>Bol\<close> matches depends on the input only.\<close>

lemma matchHere_None_indep:
  "Bol \<notin> set r \<Longrightarrow> (matchHere r p s st = None) = (matchHere r p' s st' = None)"
proof (induction r arbitrary: p p' s st st')
  case Nil
  then show ?case by (cases st; cases st') simp
next
  case (Cons a r)
  then have IH: "\<And>p p' s st st'. (matchHere r p s st = None) = (matchHere r p' s st' = None)"
    by simp
  show ?case
  proof (cases a)
    case (Lit l)
    with IH show ?thesis by simp
  next
    case (Rep lo cls)
    then show ?thesis by (simp add: tryDown_None_cong [OF IH])
  next
    case Open
    with IH show ?thesis by (cases st; cases st') simp
  next
    case Close
    with IH show ?thesis by (cases st; cases st') simp
  next
    case Bol
    with Cons.prems show ?thesis by simp
  next
    case Eol
    with IH show ?thesis by (cases s) simp_all
  next
    case End
    with IH show ?thesis by simp
  qed
qed

lemma takeWhile_anyChar: "takeWhile anyChar s = s"
  by (induction s) (simp_all add: anyChar_def)

lemma DEBUG_REGEX_leftmost:
  assumes "matchHere DEBUG_REGEX p suf ([], None) = Some m"
  shows "matchHere DEBUG_REGEX p' (pre @ suf) ([], None) \<noteq> None"
proof -
  define rest where "rest = tl (tl DEBUG_REGEX)"
  have D: "DEBUG_REGEX = Open # Rep 0 anyChar # rest" and nb: "Bol \<notin> set rest"
    by (simp_all add: rest_def DEBUG_REGEX_def)
  from assms obtain k where k: "k \<le> length suf"
    and hit: "matchHere rest (if k = 0 then p else Some (suf ! (k - 1))) (drop k suf)
                (consume (take k suf) ([], Some [])) = Some m"
    unfolding D by (auto simp: takeWhile_anyChar dest!: tryDown_SomeD)
  let ?f = "\<lambda>j. matchHere rest (if j = 0 then p' else Some ((pre @ suf) ! (j - 1)))
              (drop j (pre @ suf)) (consume (take j (pre @ suf)) ([], Some []))"
  let ?n = "length pre + k"
  have "(matchHere rest (if k = 0 then p else Some (suf ! (k - 1))) (drop k suf)
           (consume (take k suf) ([], Some [])) = None)
      = (matchHere rest (if ?n = 0 then p' else Some ((pre @ suf) ! (?n - 1))) (drop k suf)
           (consume (take ?n (pre @ suf)) ([], Some [])) = None)"
    by (rule matchHere_None_indep [OF nb])
  with hit have "matchHere rest (if ?n = 0 then p' else Some ((pre @ suf) ! (?n - 1))) (drop k suf)
           (consume (take ?n (pre @ suf)) ([], Some [])) \<noteq> None"
    by simp
  moreover have "drop ?n (pre @ suf) = drop k suf" by simp
  ultimately have "?f ?n \<noteq> None" by simp
  moreover have "length pre + k \<le> length (pre @ suf)" using k by simp
  ultimately have "tryDown ?f 0 (length (pre @ suf)) \<noteq> None"
    by (intro tryDown_hit [where j = "length pre + k"]) simp_all
  then show ?thesis unfolding D by (simp add: takeWhile_anyChar)
qed

lemma regexMatch_DEBUG_REGEX:
  assumes "regexMatch DEBUG_REGEX s = Some m"
  shows "matchHere DEBUG_REGEX None s ([], None) = Some m"
proof (cases "matchHere DEBUG_REGEX None s ([], None)")
  case None
  from assms obtain pre suf p where "s = pre @ suf" "matchHere DEBUG_REGEX p suf ([], None) = Some m"
    unfolding regexMatch_def by (blast dest: searchFrom_SomeD)
  with DEBUG_REGEX_leftmost [of p suf m None pre] None show ?thesis by simp
next
  case (Some a)
  with assms show ?thesis by (cases s) (simp_all add: regexMatch_def)
qed

lemma regexMatch_DEBUG_REGEX_sound:
  assumes "regexMatch DEBUG_REGEX s = Some m"
  shows "\<exists>debug rt ut st cs ec.
           m = [debug, rt, ut, st, cs, ec] \<and> s = debug @ metricsBlock rt ut st cs ec
           \<and> floatToken rt \<and> floatToken ut \<and> floatToken st \<and> floatToken cs \<and> intToken ec"
  using DEBUG_REGEX_sound [OF regexMatch_DEBUG_REGEX [OF assms]] .

lemma indexOf_None:
  "sep \<noteq> [] \<Longrightarrow> \<not> sublist sep s \<Longrightarrow> indexOf sep s = None"
proof (induction s)
  case Nil
  then show ?case by simp
next
  case (Cons c cs)
  from Cons.prems have "\<not> prefix sep (c # cs)" by (auto dest: prefix_imp_sublist)
  moreover from Cons.prems have "\<not> sublist sep cs" by (auto simp: sublist_Cons_right)
  ultimately show ?case using Cons by simp
qed

lemma indexOf_first:
  assumes "d \<noteq> []"
  shows "\<not> sublist d (a @ butlast d) \<Longrightarrow> indexOf d (a @ d @ b) = Some (length a)"
proof (induction a)
  case Nil
  from assms obtain x d' where "d = x # d'" by (cases d) auto
  then show ?case by simp
next
  case (Cons x a)
  let ?U = "(x # a) @ butlast d"
  have whole: "(x # a) @ d @ b = ?U @ ([last d] @ b)" using assms by simp
  have "\<not> prefix d ((x # a) @ d @ b)"
  proof
    assume "prefix d ((x # a) @ d @ b)"
    then have "prefix d (?U @ ([last d] @ b))" by (simp only: whole)
    moreover have "length d \<le> length ?U" by simp
    ultimately have "prefix d ?U"
      by (metis prefix_length_prefix prefixI prefix_order.refl append_prefixD prefix_append le_refl prefix_length_le)
    then have "sublist d ?U" by (rule prefix_imp_sublist)
    with Cons.prems show False by simp
  qed
  moreover from Cons.prems have "\<not> sublist d (a @ butlast d)" by (auto simp: sublist_Cons_right)
  ultimately show ?case using Cons.IH by simp
qed

lemma split_js_two:
  assumes "d \<noteq> []" and "\<not> sublist d (a @ butlast d)" and "\<not> sublist d b"
  shows "split_js (a @ d @ b) d = [a, b]"
proof -
  have "indexOf d (a @ d @ b) = Some (length a)" using assms by (simp add: indexOf_first)
  moreover have "indexOf d b = None" using assms by (simp add: indexOf_None)
  ultimately show ?thesis using assms(1)
    by (simp add: split_js.simps [of "a @ d @ b"] split_js.simps [of b])
qed

lemma sections_framed:
  "length d = 16 \<Longrightarrow> sections (d @ rest) = split_js rest d"
  by (simp add: sections_def)

lemma normalized_timeout:
  "timeout (normalized (options\<lparr>req_timeout := Fin t\<rparr>)) = Fin (max 500 t)"
  by (simp add: normalized_def MIN_TIMEOUT_MS_def)

lemma timerArmed_Fin: "0 < t \<Longrightarrow> timeout n = Fin t \<Longrightarrow> timerArmed n"
  by (simp add: timerArmed_def)

lemma ensureRunUrl_timers: "timers (snd (ensureRunUrl e w)) = timers w"
  using ensureRunUrl_frame [of e w "fst (ensureRunUrl e w)" "snd (ensureRunUrl e w)"] by simp

lemma runOnTio_timers:
  assumes "fst (ensureRunUrl e w) = Inr ()"
  shows "timers (snd (runOnTio e code options w)) =
     (if timerArmed (normalized options) then timers w @ [timeout (normalized options)]
      else timers w)"
proof -
  obtain w1 where e1: "ensureRunUrl e w = (Inr (), w1)" using assms by (cases "ensureRunUrl e w") auto
  have t1: "timers w1 = timers w" using ensureRunUrl_timers [of e w] e1 by simp
  let ?n = "normalized options"
  let ?body = "buildRequestBody (deflateRawSync e) code ?n"
  obtain r2 w2 where e2: "executeRequest e ?body ?n w1 = (r2, w2)"
    by (cases "executeRequest e ?body ?n w1")
  note k2 = executeRequest_frame [OF e2]
  have "snd (runOnTio e code options w) = w2"
    using e1 e2 by (auto simp: runOnTio_def Let_def split: sum.splits option.splits prod.splits)
  with k2 t1 show ?thesis by simp
qed

subsection \<open>The timeout floor\<close>

text \<open>
  C6. The timeout of the normalized options is \<^verbatim>\<open>Math.max(500, t)\<close> of the
  requested \<open>t\<close>; for every finite \<open>t\<close> that is \<open>max 500 t\<close>: 1 gives 500, 500 gives
  500, and a \<open>t\<close> above 500 is kept. It is the
  duration of the timer that \<^verbatim>\<open>executeRequest\<close> starts: once the endpoint is resolved,
  a run logs exactly one \<^verbatim>\<open>setTimeout\<close>, of \<open>max 500 t\<close> milliseconds.
  (\<^verbatim>\<open>Math.max(500, NaN)\<close> is \<^verbatim>\<open>NaN\<close>, for which no timer is started; \<^verbatim>\<open>NaN\<close>
  is not a duration.)
\<close>

theorem effective_timeout_is_max_500:
  "timeout (normalized options) = Math_max (Fin 500) (req_timeout options)
   \<and> timeout (normalized (options\<lparr>req_timeout := Fin t\<rparr>)) = Fin (max 500 t)
   \<and> timeout (normalized (options\<lparr>req_timeout := Fin 1\<rparr>)) = Fin 500
   \<and> timeout (normalized (options\<lparr>req_timeout := Fin 500\<rparr>)) = Fin 500
   \<and> (500 < t \<longrightarrow> timeout (normalized (options\<lparr>req_timeout := Fin t\<rparr>)) = Fin t)
   \<and> (fst (ensureRunUrl e w) = Inr () \<longrightarrow>
        timers (snd (runOnTio e code (options\<lparr>req_timeout := Fin t\<rparr>) w))
          = timers w @ [Fin (max 500 t)])"
proof -
  have armed: "timerArmed (normalized (options\<lparr>req_timeout := Fin t\<rparr>))"
    by (rule timerArmed_Fin [of "max 500 t"]) (simp_all add: normalized_timeout)
  have general: "timeout (normalized options) = Math_max (Fin 500) (req_timeout options)"
    by (simp add: normalized_def MIN_TIMEOUT_MS_def)
  show ?thesis
    using runOnTio_timers [of e w code "options\<lparr>req_timeout := Fin t\<rparr>"] armed general
    by (simp add: normalized_timeout)
qed

theorem effective_timeout_is_max_500_witness:
  "(500 :: rat) < 2000
   \<and> fst (ensureRunUrl (demoEnv demoServe []) warmWorld) = Inr ()
   \<and> timeout (normalized (demoOptions\<lparr>req_timeout := Fin 2000\<rparr>)) = Fin 2000
   \<and> timers (snd (runOnTio (demoEnv demoServe []) [] (demoOptions\<lparr>req_timeout := Fin 2000\<rparr>) warmWorld))
        = [Fin 2000]
   \<and> timers (snd (runOnTio (demoEnv demoServe []) [] (demoOptions\<lparr>req_timeout := Fin 1\<rparr>) warmWorld))
        = [Fin 500]"
proof -
  have fresh: "fst (ensureRunUrl (demoEnv demoServe []) warmWorld) = Inr ()"
    by (simp add: ensureRunUrl_def warmWorld_def)
  have w: "timers warmWorld = []" by (simp add: warmWorld_def)
  from effective_timeout_is_max_500 [where options = demoOptions and t = 2000
        and e = "demoEnv demoServe []" and w = warmWorld and code = "[]"]
    effective_timeout_is_max_500 [where options = demoOptions and t = 1
        and e = "demoEnv demoServe []" and w = warmWorld and code = "[]"]
    fresh w
  show ?thesis by simp
qed

subsection \<open>Failed resolutions\<close>

text \<open>
  C10. A call of \<open>ensureRunUrl\<close> that fails, with whatever error, leaves \<open>runUrl\<close>
  and \<open>nextRefreshAt\<close> as they were. With an empty or expired cache the call fails
  when the landing page or the script has a non-success status, or when either pattern
  does not match.
\<close>

theorem failed_resolution_leaves_cache:
  "(ensureRunUrl e w = (Inl err, w') \<longrightarrow>
      runUrl w' = runUrl w \<and> nextRefreshAt w' = nextRefreshAt w)
   \<and> (\<not> (runUrl w \<noteq> None \<and> now w < nextRefreshAt w) \<longrightarrow>
        (serve e (length (requests w)) (GET (TIO_BASE_URL @ js ''/'')) = Fulfilled r1 \<and> \<not> ok r1 \<longrightarrow>
           fst (ensureRunUrl e w) = Inl (FetchFailed (js ''/'') (status r1)))
      \<and> (serve e (length (requests w)) (GET (TIO_BASE_URL @ js ''/'')) = Fulfilled r1 \<and> ok r1
           \<and> regexMatch SCRIPT_REGEX (bodyText r1) = None \<longrightarrow>
           fst (ensureRunUrl e w) = Inl NoFrontendScript)
      \<and> (serve e (length (requests w)) (GET (TIO_BASE_URL @ js ''/'')) = Fulfilled r1 \<and> ok r1
           \<and> regexMatch SCRIPT_REGEX (bodyText r1) = Some m \<and> m ! 0 \<noteq> []
           \<and> serve e (Suc (length (requests w))) (GET (TIO_BASE_URL @ m ! 0)) = Fulfilled r2
           \<and> \<not> ok r2 \<longrightarrow>
           fst (ensureRunUrl e w) = Inl (FetchFailed (m ! 0) (status r2)))
      \<and> (serve e (length (requests w)) (GET (TIO_BASE_URL @ js ''/'')) = Fulfilled r1 \<and> ok r1
           \<and> regexMatch SCRIPT_REGEX (bodyText r1) = Some m \<and> m ! 0 \<noteq> []
           \<and> serve e (Suc (length (requests w))) (GET (TIO_BASE_URL @ m ! 0)) = Fulfilled r2
           \<and> ok r2 \<and> regexMatch RUN_URL_REGEX (bodyText r2) = None \<longrightarrow>
           fst (ensureRunUrl e w) = Inl NoExecutionUrl))"
proof -
  have keep: "ensureRunUrl e w = (Inl err, w') \<longrightarrow>
      runUrl w' = runUrl w \<and> nextRefreshAt w' = nextRefreshAt w"
    using ensureRunUrl_error_keeps_cache by blast
  have fails: "(serve e (length (requests w)) (GET (TIO_BASE_URL @ js ''/'')) = Fulfilled r1 \<and> \<not> ok r1 \<longrightarrow>
           fst (ensureRunUrl e w) = Inl (FetchFailed (js ''/'') (status r1)))
      \<and> (serve e (length (requests w)) (GET (TIO_BASE_URL @ js ''/'')) = Fulfilled r1 \<and> ok r1
           \<and> regexMatch SCRIPT_REGEX (bodyText r1) = None \<longrightarrow>
           fst (ensureRunUrl e w) = Inl NoFrontendScript)
      \<and> (serve e (length (requests w)) (GET (TIO_BASE_URL @ js ''/'')) = Fulfilled r1 \<and> ok r1
           \<and> regexMatch SCRIPT_REGEX (bodyText r1) = Some m \<and> m ! 0 \<noteq> []
           \<and> serve e (Suc (length (requests w))) (GET (TIO_BASE_URL @ m ! 0)) = Fulfilled r2
           \<and> \<not> ok r2 \<longrightarrow>
           fst (ensureRunUrl e w) = Inl (FetchFailed (m ! 0) (status r2)))
      \<and> (serve e (length (requests w)) (GET (TIO_BASE_URL @ js ''/'')) = Fulfilled r1 \<and> ok r1
           \<and> regexMatch SCRIPT_REGEX (bodyText r1) = Some m \<and> m ! 0 \<noteq> []
           \<and> serve e (Suc (length (requests w))) (GET (TIO_BASE_URL @ m ! 0)) = Fulfilled r2
           \<and> ok r2 \<and> regexMatch RUN_URL_REGEX (bodyText r2) = None \<longrightarrow>
           fst (ensureRunUrl e w) = Inl NoExecutionUrl)"
    if stale: "\<not> (runUrl w \<noteq> None \<and> now w < nextRefreshAt w)"
    using stale
  proof (cases rule: ensureRunUrl_stale_cases [where e = e])
    case (landing_failed err w1)
    with fetchText_result [of e "js ''/''" w] show ?thesis
      by (auto split: settled.splits if_splits)
  next
    case (no_script html w1)
    with fetchText_result [of e "js ''/''" w] show ?thesis
      by (auto split: settled.splits if_splits)
  next
    case (script_failed html w1 m0 err w2)
    with fetchText_result [of e "js ''/''" w] fetchText_result [of e "m0 ! 0" w1]
      fetchText_frame [OF script_failed(1)]
    show ?thesis by (auto split: settled.splits if_splits)
  next
    case (no_url html w1 m0 script w2)
    with fetchText_result [of e "js ''/''" w] fetchText_result [of e "m0 ! 0" w1]
      fetchText_frame [OF no_url(1)]
    show ?thesis by (auto split: settled.splits if_splits)
  next
    case (resolved html w1 m0 script w2 m')
    with fetchText_result [of e "js ''/''" w] fetchText_result [of e "m0 ! 0" w1]
      fetchText_frame [OF resolved(1)]
    show ?thesis by (auto split: settled.splits if_splits)
  qed
  from keep fails show ?thesis by blast
qed

theorem failed_resolution_leaves_cache_witness:
  "\<not> (runUrl expiredWorld \<noteq> None \<and> now expiredWorld < nextRefreshAt expiredWorld)
   \<and> serve (demoEnv downServe []) (length (requests expiredWorld)) (GET (TIO_BASE_URL @ js ''/''))
       = Fulfilled notFound
   \<and> \<not> ok notFound
   \<and> ensureRunUrl (demoEnv downServe []) expiredWorld
       = (Inl (FetchFailed (js ''/'') 404),
          expiredWorld\<lparr> requests := [GET (js ''https://tio.run/'')], now := 1850020 \<rparr>)
   \<and> runUrl (expiredWorld\<lparr> requests := [GET (js ''https://tio.run/'')], now := 1850020 \<rparr>)
       = runUrl expiredWorld
   \<and> nextRefreshAt (expiredWorld\<lparr> requests := [GET (js ''https://tio.run/'')], now := 1850020 \<rparr>)
       = nextRefreshAt expiredWorld
   \<and> fst (ensureRunUrl (demoEnv downServe []) expiredWorld) = Inl (FetchFailed (js ''/'') (status notFound))"
proof -
  let ?w' = "expiredWorld\<lparr> requests := [GET (js ''https://tio.run/'')], now := 1850020 \<rparr>"
  have stale: "\<not> (runUrl expiredWorld \<noteq> None \<and> now expiredWorld < nextRefreshAt expiredWorld)"
    by (simp add: expiredWorld_def)
  have srv: "serve (demoEnv downServe []) (length (requests expiredWorld)) (GET (TIO_BASE_URL @ js ''/''))
       = Fulfilled notFound"
    by (simp add: demoEnv_def downServe_def)
  have bad: "\<not> ok notFound" by (simp add: ok_def notFound_def)
  have run: "ensureRunUrl (demoEnv downServe []) expiredWorld = (Inl (FetchFailed (js ''/'') 404), ?w')"
    by code_simp
  note t = failed_resolution_leaves_cache [where e = "demoEnv downServe []" and w = expiredWorld
      and w' = ?w' and err = "FetchFailed (js ''/'') 404" and ?r1.0 = notFound]
  from t run have keep: "runUrl ?w' = runUrl expiredWorld \<and> nextRefreshAt ?w' = nextRefreshAt expiredWorld"
    by blast
  from t stale srv bad
  have err: "fst (ensureRunUrl (demoEnv downServe []) expiredWorld) = Inl (FetchFailed (js ''/'') (status notFound))"
    by blast
  from stale srv bad run keep err show ?thesis by blast
qed

lemma runOnTio_preaborted:
  assumes sig: "req_signal options \<noteq> None" and ab: "signalAborted w"
  shows "(fst (ensureRunUrl e w) = Inr () \<longrightarrow>
            fst (runOnTio e code options w) = Inl ExecutionAbortedError)
       \<and> (\<forall>err. fst (ensureRunUrl e w) = Inl err \<longrightarrow> fst (runOnTio e code options w) = Inl err)
       \<and> requests (snd (runOnTio e code options w)) = requests (snd (ensureRunUrl e w))"
proof -
  obtain r1 w1 where e1: "ensureRunUrl e w = (r1, w1)" by (cases "ensureRunUrl e w")
  from ensureRunUrl_frame [OF e1] ab have ab1: "signalAborted w1" by simp
  have sig': "signal (normalized options) \<noteq> None" using sig by (simp add: normalized_def)
  show ?thesis
  proof (cases r1)
    case (Inl err)
    with e1 show ?thesis by (simp add: runOnTio_def)
  next
    case (Inr u)
    with e1 executeRequest_preaborted [OF sig' ab1, of e] show ?thesis
      by (simp add: runOnTio_def Let_def)
  qed
qed

subsection \<open>A signal that is aborted before the call\<close>

text \<open>
  C1, as the code has it. When the options carry a signal that is already aborted, a
  run never issues the execution POST: the only requests it adds are the discovery
  GETs of \<open>ensureRunUrl\<close>, which is called first and does not look at the signal. When
  the resolution succeeds the run raises \<open>ExecutionAbortedError\<close>; when it fails, its
  error is what the run raises; and when the cache is fresh no request at all is issued.
\<close>

theorem preaborted_signal_never_posts:
  assumes "req_signal options \<noteq> None" and "signalAborted w"
  shows "(\<exists>gets. requests (snd (runOnTio e code options w)) = requests w @ gets \<and> onlyGets gets)
       \<and> (fst (ensureRunUrl e w) = Inr () \<longrightarrow>
            fst (runOnTio e code options w) = Inl ExecutionAbortedError)
       \<and> (\<forall>err. fst (ensureRunUrl e w) = Inl err \<longrightarrow> fst (runOnTio e code options w) = Inl err)
       \<and> (runUrl w \<noteq> None \<and> now w < nextRefreshAt w \<longrightarrow>
            fst (runOnTio e code options w) = Inl ExecutionAbortedError
            \<and> requests (snd (runOnTio e code options w)) = requests w)"
proof -
  note pre = runOnTio_preaborted [OF assms, of e code]
  from ensureRunUrl_frame [of e w "fst (ensureRunUrl e w)" "snd (ensureRunUrl e w)"]
  obtain gets where g: "requests (snd (ensureRunUrl e w)) = requests w @ gets" "onlyGets gets"
    by auto
  have fresh: "fst (runOnTio e code options w) = Inl ExecutionAbortedError
            \<and> requests (snd (runOnTio e code options w)) = requests w"
    if "runUrl w \<noteq> None \<and> now w < nextRefreshAt w"
    using pre that by (simp add: ensureRunUrl_fresh)
  from pre g fresh show ?thesis by auto
qed

theorem preaborted_signal_never_posts_witness:
  "req_signal demoOptions \<noteq> None \<and> signalAborted coldAbortedWorld
   \<and> signalAborted (warmWorld\<lparr> signalAborted := True \<rparr>)
   \<and> fst (ensureRunUrl (demoEnv demoServe []) coldAbortedWorld) = Inr ()
   \<and> fst (runOnTio (demoEnv demoServe []) [] demoOptions coldAbortedWorld) = Inl ExecutionAbortedError
   \<and> (\<exists>gets. requests (snd (runOnTio (demoEnv demoServe []) [] demoOptions coldAbortedWorld))
         = requests coldAbortedWorld @ gets \<and> onlyGets gets)
   \<and> fst (runOnTio (demoEnv demoServe []) [] demoOptions (warmWorld\<lparr> signalAborted := True \<rparr>))
       = Inl ExecutionAbortedError
   \<and> requests (snd (runOnTio (demoEnv demoServe []) [] demoOptions (warmWorld\<lparr> signalAborted := True \<rparr>)))
       = requests (warmWorld\<lparr> signalAborted := True \<rparr>)"
proof -
  have sig: "req_signal demoOptions \<noteq> None" by (simp add: demoOptions_def)
  have ab: "signalAborted coldAbortedWorld" by (simp add: coldAbortedWorld_def)
  have ab': "signalAborted (warmWorld\<lparr> signalAborted := True \<rparr>)" by simp
  have res: "fst (ensureRunUrl (demoEnv demoServe []) coldAbortedWorld) = Inr ()" by code_simp
  have fresh: "runUrl (warmWorld\<lparr> signalAborted := True \<rparr>) \<noteq> None
      \<and> now (warmWorld\<lparr> signalAborted := True \<rparr>) < nextRefreshAt (warmWorld\<lparr> signalAborted := True \<rparr>)"
    by (simp add: warmWorld_def)
  note cold = preaborted_signal_never_posts [OF sig ab, of "demoEnv demoServe []" "[]"]
  note warm = preaborted_signal_never_posts [OF sig ab', of "demoEnv demoServe []" "[]"]
  from sig ab ab' res fresh cold warm show ?thesis by blast
qed

lemma set_take_actions:
  "x \<in> set (take k (actions options ints)) \<Longrightarrow> x \<in> set (actions options ints)"
  by (rule in_set_takeD)

lemma flight_after:
  fixes options ints w
  defines "f \<equiv> runActions (actions options ints)
      \<lparr> timedOutFlag = False, controllerAborted = False, signalFlag = signalAborted w \<rparr>"
  shows "timedOutFlag f \<longleftrightarrow> TimerFired \<in> set (filter (effective options) ints)"
    and "controllerAborted f \<longleftrightarrow> filter (effective options) ints \<noteq> []"
    and "signalFlag f \<longleftrightarrow> signalAborted w \<or> SignalAborted \<in> set (filter (effective options) ints)"
  unfolding f_def by (auto simp: runActions_flags actions_members filter_empty_conv)

text \<open>
  C1 as stated fails: with an empty cache and an aborted signal the run performs both
  discovery fetches before it raises \<open>ExecutionAbortedError\<close>, and when the first of
  them is answered with status 404 the run raises that fetch failure, not a
  cancellation.
\<close>

theorem preaborted_signal_fetches_counterexample:
  "req_signal demoOptions = Some AbortSignal \<and> signalAborted coldAbortedWorld
   \<and> requests coldAbortedWorld = []
   \<and> runOnTio (demoEnv demoServe []) [] demoOptions coldAbortedWorld
       = (Inl ExecutionAbortedError,
          resolvedWorld\<lparr> timers := [Fin 2000], signalAborted := True \<rparr>)
   \<and> requests (resolvedWorld\<lparr> timers := [Fin 2000], signalAborted := True \<rparr>)
       = [GET (js ''https://tio.run/''), GET (js ''https://tio.run/static/0a1b-frontend.js'')]
   \<and> runOnTio (demoEnv downServe []) [] demoOptions coldAbortedWorld
       = (Inl (FetchFailed (js ''/'') 404),
          coldAbortedWorld\<lparr> requests := [GET (js ''https://tio.run/'')], now := 1000020 \<rparr>)"
  by code_simp

subsection \<open>Timeout against cancellation\<close>

text \<open>
  C4. For a POST that is issued (the signal, if any, was not aborted beforehand), with
  the interrupts that take effect while it is in flight in their order: when the first
  one is the timer, \<open>executeRequest\<close> returns the timed-out marker (a null buffer with
  \<open>timedOut = True\<close>) and raises nothing; when the first one is the caller's signal and
  the timer does not fire, it raises \<open>ExecutionAbortedError\<close>. Conversely the marker is
  returned only when the timer fired, the cancellation is raised only when the signal
  fired and the timer did not, and the buffer is null exactly when \<open>timedOut\<close> is set.
  At every point of the callbacks' execution, if the controller has been aborted then
  \<open>timedOut\<close> is already set or the caller's signal is already flagged: the timer
  records its firing before it aborts.
\<close>

theorem timeout_and_cancellation_not_conflated:
  assumes "\<not> (signal options \<noteq> None \<and> signalAborted w)"
  shows "((\<exists>rest. filter (effective options) (interrupts e (length (requests w))) = TimerFired # rest)
            \<longrightarrow> fst (executeRequest e body options w) = Inr (None, True))
       \<and> ((\<exists>rest. filter (effective options) (interrupts e (length (requests w))) = SignalAborted # rest
                  \<and> TimerFired \<notin> set rest)
            \<longrightarrow> fst (executeRequest e body options w) = Inl ExecutionAbortedError)
       \<and> (\<forall>b t. fst (executeRequest e body options w) = Inr (b, t) \<longrightarrow>
            (b = None) = t
            \<and> (t \<longrightarrow> TimerFired \<in> set (filter (effective options) (interrupts e (length (requests w))))))
       \<and> (fst (executeRequest e body options w) = Inl ExecutionAbortedError \<longrightarrow>
            SignalAborted \<in> set (filter (effective options) (interrupts e (length (requests w))))
            \<and> TimerFired \<notin> set (filter (effective options) (interrupts e (length (requests w)))))
       \<and> (\<forall>k. let f = runActions (take k (actions options (interrupts e (length (requests w)))))
                        \<lparr> timedOutFlag = False, controllerAborted = False,
                          signalFlag = signalAborted w \<rparr>
               in controllerAborted f \<longrightarrow> timedOutFlag f \<or> (signal options \<noteq> None \<and> signalFlag f))"
proof -
  let ?ints = "interrupts e (length (requests w))"
  let ?eff = "filter (effective options) ?ints"
  let ?f = "runActions (actions options ?ints)
      \<lparr> timedOutFlag = False, controllerAborted = False, signalFlag = signalAborted w \<rparr>"
  note fl = flight_after [of options ?ints w]
  note ex = executeRequest_unfold [OF assms, of e body]
  have timer: "fst (executeRequest e body options w) = Inr (None, True)" if "?eff = TimerFired # rest" for rest
  proof -
    from that have "timedOutFlag ?f" "controllerAborted ?f" by (simp_all add: fl)
    then show ?thesis by (simp add: ex Let_def)
  qed
  have cancel: "fst (executeRequest e body options w) = Inl ExecutionAbortedError"
    if "?eff = SignalAborted # rest" "TimerFired \<notin> set rest" for rest
  proof -
    from that have "\<not> timedOutFlag ?f" "controllerAborted ?f" "signalFlag ?f" by (simp_all add: fl)
    moreover have "SignalAborted \<in> set ?eff" using that by simp
    then have "signal options \<noteq> None" by auto
    ultimately show ?thesis by (simp add: ex Let_def)
  qed
  have marker: "(b = None) = t \<and> (t \<longrightarrow> TimerFired \<in> set ?eff)"
    if "fst (executeRequest e body options w) = Inr (b, t)" for b t
    using that fl(1)
    by (auto simp: ex Let_def split: if_splits settled.splits)
  have aborted: "SignalAborted \<in> set ?eff \<and> TimerFired \<notin> set ?eff"
    if "fst (executeRequest e body options w) = Inl ExecutionAbortedError"
    using that assms fl(1) fl(3)
    by (auto simp: ex Let_def split: if_splits settled.splits)
  have inv: "controllerAborted f \<longrightarrow> timedOutFlag f \<or> (signal options \<noteq> None \<and> signalFlag f)"
    if "f = runActions (take k (actions options ?ints))
          \<lparr> timedOutFlag = False, controllerAborted = False, signalFlag = signalAborted w \<rparr>" for k f
  proof
    assume "controllerAborted f"
    with that have "AbortController \<in> set (take k (actions options ?ints))"
      by (simp add: runActions_flags)
    then have "SetTimedOut \<in> set (take k (actions options ?ints))
        \<or> MarkSignalAborted \<in> set (take k (actions options ?ints))"
      unfolding actions_def by (rule abort_after_record)
    then show "timedOutFlag f \<or> (signal options \<noteq> None \<and> signalFlag f)"
    proof
      assume "SetTimedOut \<in> set (take k (actions options ?ints))"
      with that show ?thesis by (simp add: runActions_flags)
    next
      assume m: "MarkSignalAborted \<in> set (take k (actions options ?ints))"
      then have "MarkSignalAborted \<in> set (actions options ?ints)" by (rule set_take_actions)
      then have "signal options \<noteq> None" by (simp add: actions_members)
      with m that show ?thesis by (simp add: runActions_flags)
    qed
  qed
  from timer cancel marker aborted inv show ?thesis by (simp add: Let_def) blast
qed

theorem timeout_and_cancellation_not_conflated_witness:
  "\<not> (signal (normalized demoOptions) \<noteq> None \<and> signalAborted warmWorld)
   \<and> filter (effective (normalized demoOptions))
        (interrupts (demoEnv demoServe [TimerFired]) (length (requests warmWorld))) = [TimerFired]
   \<and> fst (executeRequest (demoEnv demoServe [TimerFired]) [] (normalized demoOptions) warmWorld)
        = Inr (None, True)
   \<and> filter (effective (normalized demoOptions))
        (interrupts (demoEnv demoServe [SignalAborted]) (length (requests warmWorld))) = [SignalAborted]
   \<and> TimerFired \<notin> set []
   \<and> fst (executeRequest (demoEnv demoServe [SignalAborted]) [] (normalized demoOptions) warmWorld)
        = Inl ExecutionAbortedError"
proof -
  have pre: "\<not> (signal (normalized demoOptions) \<noteq> None \<and> signalAborted warmWorld)"
    by (simp add: warmWorld_def)
  have t: "filter (effective (normalized demoOptions))
        (interrupts (demoEnv demoServe [TimerFired]) (length (requests warmWorld))) = [TimerFired]"
    by code_simp
  have s: "filter (effective (normalized demoOptions))
        (interrupts (demoEnv demoServe [SignalAborted]) (length (requests warmWorld))) = [SignalAborted]"
    by code_simp
  note a = timeout_and_cancellation_not_conflated [OF pre, of "demoEnv demoServe [TimerFired]" "[]"]
  note b = timeout_and_cancellation_not_conflated [OF pre, of "demoEnv demoServe [SignalAborted]" "[]"]
  from a t have 1: "fst (executeRequest (demoEnv demoServe [TimerFired]) [] (normalized demoOptions) warmWorld)
        = Inr (None, True)" by blast
  from b s have 2: "fst (executeRequest (demoEnv demoServe [SignalAborted]) [] (normalized demoOptions) warmWorld)
        = Inl ExecutionAbortedError" by simp
  from pre t s 1 2 show ?thesis by simp
qed




lemma decodeResponse_Inr:
  assumes "decodeResponse content b = Inr r"
  shows "\<exists>debug rt ut st cs ec.
           2 \<le> length (sections content)
           \<and> sections content ! 1 = debug @ metricsBlock rt ut st cs ec
           \<and> floatToken rt \<and> floatToken ut \<and> floatToken st \<and> floatToken cs \<and> intToken ec
           \<and> r = \<lparr> output = (if sections content ! 0 \<noteq> [] then sections content ! 0 else debug),
                   timedOut = b, realTime = parseFloat rt, userTime = parseFloat ut,
                   sysTime = parseFloat st, CPUshare = parseFloat cs, exitCode = Number_js ec \<rparr>"
proof -
  from assms have len: "2 \<le> length (sections content)"
    by (auto simp: decodeResponse_def Let_def split: if_splits)
  with assms obtain m where m: "regexMatch DEBUG_REGEX (sections content ! 1) = Some m"
    by (cases "regexMatch DEBUG_REGEX (sections content ! 1)")
      (auto simp: decodeResponse_def Let_def split: if_splits)
  from regexMatch_DEBUG_REGEX_sound [OF m] obtain debug rt ut st cs ec where
    g: "m = [debug, rt, ut, st, cs, ec]" "sections content ! 1 = debug @ metricsBlock rt ut st cs ec"
      "floatToken rt" "floatToken ut" "floatToken st" "floatToken cs" "intToken ec"
    by blast
  from assms len m g(1) have "r = \<lparr> output = (if sections content ! 0 \<noteq> [] then sections content ! 0 else debug),
                   timedOut = b, realTime = parseFloat rt, userTime = parseFloat ut,
                   sysTime = parseFloat st, CPUshare = parseFloat cs, exitCode = Number_js ec \<rparr>"
    by (auto simp: decodeResponse_def Let_def split: if_splits)
  with len g show ?thesis by blast
qed

subsection \<open>The response decoder\<close>

lemma diag_match:
  "regexMatch DEBUG_REGEX exampleDiagnostics
     = Some [js ''dbg'' @ [LF], js ''0.12'', js ''0.03'', js ''0.01'', js ''33.3'', js ''0'']"
  by code_simp

lemma diag_numbers:
  "parseFloat (js ''0.12'') = Fin (12 / 100)" "parseFloat (js ''0.03'') = Fin (3 / 100)"
  "parseFloat (js ''0.01'') = Fin (1 / 100)" "parseFloat (js ''33.3'') = Fin (333 / 10)"
  "Number_js (js ''0'') = Fin 0"
  by code_simp+

text \<open>
  C3, as the code has it. For a 16-character delimiter that occurs in the text at
  the two framing places only (no occurrence starts inside \<^verbatim>\<open>hello\<close>, none lies in
  the diagnostics), the example text decodes to the output \<^verbatim>\<open>hello\<close> and the metrics
  0.12, 0.03, 0.01, 33.3 and exit code 0. In general a decoded result comes from a
  section 1 of the form debug text followed by the metric lines up to its end; the
  output is section 0 when that is not empty and the captured debug text otherwise, and
  the numbers are read from the metric lines.
\<close>

theorem decode_example_and_output_rule:
  "(length d = 16 \<and> \<not> sublist d (js ''hello'' @ butlast d) \<and> \<not> sublist d exampleDiagnostics \<longrightarrow>
      decodeResponse (d @ js ''hello'' @ d @ exampleDiagnostics) b
        = Inr \<lparr> output = js ''hello'', timedOut = b, realTime = Fin (12 / 100),
                userTime = Fin (3 / 100), sysTime = Fin (1 / 100), CPUshare = Fin (333 / 10),
                exitCode = Fin 0 \<rparr>)
   \<and> (decodeResponse content b = Inr r \<longrightarrow>
        (\<exists>debug rt ut st cs ec.
            2 \<le> length (sections content)
            \<and> sections content ! 1 = debug @ metricsBlock rt ut st cs ec
            \<and> floatToken rt \<and> floatToken ut \<and> floatToken st \<and> floatToken cs \<and> intToken ec
            \<and> output r = (if sections content ! 0 \<noteq> [] then sections content ! 0 else debug)
            \<and> timedOut r = b
            \<and> realTime r = parseFloat rt \<and> userTime r = parseFloat ut
            \<and> sysTime r = parseFloat st \<and> CPUshare r = parseFloat cs
            \<and> exitCode r = Number_js ec))"
proof -
  have example: "decodeResponse (d @ js ''hello'' @ d @ exampleDiagnostics) b
        = Inr \<lparr> output = js ''hello'', timedOut = b, realTime = Fin (12 / 100),
                userTime = Fin (3 / 100), sysTime = Fin (1 / 100), CPUshare = Fin (333 / 10),
                exitCode = Fin 0 \<rparr>"
    if len: "length d = 16" and before: "\<not> sublist d (js ''hello'' @ butlast d)"
      and after: "\<not> sublist d exampleDiagnostics"
  proof -
    from len have ne: "d \<noteq> []" by auto
    have "sections (d @ js ''hello'' @ d @ exampleDiagnostics) = split_js (js ''hello'' @ d @ exampleDiagnostics) d"
      using len by (rule sections_framed)
    also have "\<dots> = [js ''hello'', exampleDiagnostics]" using ne before after by (rule split_js_two)
    finally have secs: "sections (d @ js ''hello'' @ d @ exampleDiagnostics) = [js ''hello'', exampleDiagnostics]" .
    have hello: "js ''hello'' \<noteq> []" by (simp add: js_def)
    show ?thesis
      unfolding decodeResponse_def secs
      by (simp add: diag_match diag_numbers hello)
  qed
  have rule: "\<exists>debug rt ut st cs ec.
            2 \<le> length (sections content)
            \<and> sections content ! 1 = debug @ metricsBlock rt ut st cs ec
            \<and> floatToken rt \<and> floatToken ut \<and> floatToken st \<and> floatToken cs \<and> intToken ec
            \<and> output r = (if sections content ! 0 \<noteq> [] then sections content ! 0 else debug)
            \<and> timedOut r = b
            \<and> realTime r = parseFloat rt \<and> userTime r = parseFloat ut
            \<and> sysTime r = parseFloat st \<and> CPUshare r = parseFloat cs
            \<and> exitCode r = Number_js ec"
    if dec: "decodeResponse content b = Inr r"
  proof -
    from decodeResponse_Inr [OF dec] obtain debug rt ut st cs ec where
      d: "2 \<le> length (sections content)" "sections content ! 1 = debug @ metricsBlock rt ut st cs ec"
        "floatToken rt" "floatToken ut" "floatToken st" "floatToken cs" "intToken ec"
      and r: "r = \<lparr> output = (if sections content ! 0 \<noteq> [] then sections content ! 0 else debug),
                   timedOut = b, realTime = parseFloat rt, userTime = parseFloat ut,
                   sysTime = parseFloat st, CPUshare = parseFloat cs, exitCode = Number_js ec \<rparr>"
      by blast
    from r have "output r = (if sections content ! 0 \<noteq> [] then sections content ! 0 else debug)
        \<and> timedOut r = b \<and> realTime r = parseFloat rt \<and> userTime r = parseFloat ut
        \<and> sysTime r = parseFloat st \<and> CPUshare r = parseFloat cs \<and> exitCode r = Number_js ec"
      by simp
    with d show ?thesis by blast
  qed
  from example rule show ?thesis by blast
qed

theorem decode_example_and_output_rule_witness:
  "length (js ''0123456789abcdef'') = 16
   \<and> \<not> sublist (js ''0123456789abcdef'') (js ''hello'' @ butlast (js ''0123456789abcdef''))
   \<and> \<not> sublist (js ''0123456789abcdef'') exampleDiagnostics
   \<and> decodeResponse (js ''0123456789abcdef'' @ js ''hello'' @ js ''0123456789abcdef'' @ exampleDiagnostics) False
        = Inr \<lparr> output = js ''hello'', timedOut = False, realTime = Fin (12 / 100),
                userTime = Fin (3 / 100), sysTime = Fin (1 / 100), CPUshare = Fin (333 / 10),
                exitCode = Fin 0 \<rparr>
   \<and> sections (js ''0123456789abcdef'' @ js ''hello'' @ js ''0123456789abcdef'' @ exampleDiagnostics) ! 1
        = (js ''dbg'' @ [LF]) @ metricsBlock (js ''0.12'') (js ''0.03'') (js ''0.01'') (js ''33.3'') (js ''0'')"
proof -
  have h1: "length (js ''0123456789abcdef'') = 16" by (simp add: js_def)
  have h2: "\<not> sublist (js ''0123456789abcdef'') (js ''hello'' @ butlast (js ''0123456789abcdef''))"
    by code_simp
  have h3: "\<not> sublist (js ''0123456789abcdef'') exampleDiagnostics" by code_simp
  have s: "sections (js ''0123456789abcdef'' @ js ''hello'' @ js ''0123456789abcdef'' @ exampleDiagnostics) ! 1
        = (js ''dbg'' @ [LF]) @ metricsBlock (js ''0.12'') (js ''0.03'') (js ''0.01'') (js ''33.3'') (js ''0'')"
    by code_simp
  from decode_example_and_output_rule [where d = "js ''0123456789abcdef''" and b = False] h1 h2 h3
  have "decodeResponse (js ''0123456789abcdef'' @ js ''hello'' @ js ''0123456789abcdef'' @ exampleDiagnostics) False
        = Inr \<lparr> output = js ''hello'', timedOut = False, realTime = Fin (12 / 100),
                userTime = Fin (3 / 100), sysTime = Fin (1 / 100), CPUshare = Fin (333 / 10),
                exitCode = Fin 0 \<rparr>"
    by blast
  with h1 h2 h3 s show ?thesis by blast
qed

text \<open>
  C3 as stated, for any 16-character delimiter, fails: with the delimiter
  \<^verbatim>\<open>oooooooooooooooo\<close> the first occurrence of the delimiter in the remainder starts at
  the \<^verbatim>\<open>o\<close> of \<^verbatim>\<open>hello\<close>, and the output is \<^verbatim>\<open>hell\<close>.
\<close>

theorem delimiter_inside_output_counterexample:
  "length (js ''oooooooooooooooo'') = 16
   \<and> decodeResponse (js ''oooooooooooooooo'' @ js ''hello'' @ js ''oooooooooooooooo'' @ exampleDiagnostics) False
        = Inr \<lparr> output = js ''hell'', timedOut = False, realTime = Fin (12 / 100),
                userTime = Fin (3 / 100), sysTime = Fin (1 / 100), CPUshare = Fin (333 / 10),
                exitCode = Fin 0 \<rparr>
   \<and> js ''hell'' \<noteq> js ''hello''"
  by code_simp

subsection \<open>The frame\<close>

text \<open>
  C2, as the code has it. The bytes that are compressed are, in this order: the field
  \<^verbatim>\<open>Vargs\<close> with the decimal count of the arguments and each argument followed by a
  NUL; the field \<^verbatim>\<open>Vlang\<close> with the literal count 1 and the language followed by a
  NUL; the field \<^verbatim>\<open>VTIO_CFLAGS\<close> with the decimal count of the flags and each flag
  followed by a NUL; the field \<^verbatim>\<open>VTIO_OPTIONS\<close> with the literal count 0 and nothing
  else; the field \<^verbatim>\<open>F.code.tio\<close> with the decimal UTF-8 byte length of the code and
  the code; the field \<^verbatim>\<open>F.input.tio\<close> with the decimal UTF-8 byte length of the input
  and the input; and the single byte \<^verbatim>\<open>R\<close>. Every name and every number is followed by
  a NUL.
\<close>

theorem request_frame_layout:
  "utf8Encode (payload code options) =
     utf8Encode (js ''Vargs'') @ [0] @ utf8Encode (decimal (length (argv options))) @ [0]
       @ concat (map (\<lambda>a. utf8Encode a @ [0]) (argv options))
     @ utf8Encode (js ''Vlang'') @ [0] @ utf8Encode (js ''1'') @ [0]
       @ utf8Encode (language options) @ [0]
     @ utf8Encode (js ''VTIO_CFLAGS'') @ [0] @ utf8Encode (decimal (length (cflags options))) @ [0]
       @ concat (map (\<lambda>a. utf8Encode a @ [0]) (cflags options))
     @ utf8Encode (js ''VTIO_OPTIONS'') @ [0] @ utf8Encode (js ''0'') @ [0]
     @ utf8Encode (js ''F.code.tio'') @ [0] @ utf8Encode (decimal (length (utf8Encode code))) @ [0]
       @ utf8Encode code
     @ utf8Encode (js ''F.input.tio'') @ [0]
       @ utf8Encode (decimal (length (utf8Encode (stdin options)))) @ [0]
       @ utf8Encode (stdin options)
     @ utf8Encode (js ''R'')
   \<and> buildRequestBody deflate code options = deflate (utf8Encode (payload code options))"
proof -
  have ne: "js ''F.input.tio'' \<noteq> []" "js ''R'' \<noteq> []" by (simp_all add: js_def)
  note mid = utf8Encode_append_ascii [OF names_ascii(6) ne(1)]
    utf8Encode_append_ascii [OF names_ascii(7) ne(2), of _ "[]", simplified]
  show ?thesis
    by (simp add: payload_def utf8Encode_ascii_append utf8Encode_NUL_Cons decimal_ascii
      utf8Encode_nulTerminated utf8Encode_snoc_NUL encodeField_def encodeLength_def
      length_utf8Encode mid names_ascii buildRequestBody_def)
qed

text \<open>
  C2 as stated fails on the names: the frame of a request does not have fields called
  \<^verbatim>\<open>args\<close>, \<^verbatim>\<open>lang\<close>, \<^verbatim>\<open>CFLAGS\<close>, \<^verbatim>\<open>OPTIONS\<close>, \<^verbatim>\<open>code\<close> and
  \<^verbatim>\<open>input\<close>.
\<close>

theorem spec_field_names_counterexample:
  "payload (js ''x'') cOptions =
     js ''Vargs'' @ [NUL] @ js ''1'' @ [NUL] @ js ''-v'' @ [NUL]
     @ js ''Vlang'' @ [NUL] @ js ''1'' @ [NUL] @ js ''c-gcc'' @ [NUL]
     @ js ''VTIO_CFLAGS'' @ [NUL] @ js ''0'' @ [NUL]
     @ js ''VTIO_OPTIONS'' @ [NUL] @ js ''0'' @ [NUL]
     @ js ''F.code.tio'' @ [NUL] @ js ''1'' @ [NUL] @ js ''x''
     @ js ''F.input.tio'' @ [NUL] @ js ''2'' @ [NUL] @ js ''42''
     @ js ''R''
   \<and> specFrame (js ''x'') cOptions =
     js ''args'' @ [NUL] @ js ''1'' @ [NUL] @ js ''-v'' @ [NUL]
     @ js ''lang'' @ [NUL] @ js ''1'' @ [NUL] @ js ''c-gcc'' @ [NUL]
     @ js ''CFLAGS'' @ [NUL] @ js ''0'' @ [NUL]
     @ js ''OPTIONS'' @ [NUL] @ js ''0'' @ [NUL]
     @ js ''code'' @ [NUL] @ js ''1'' @ [NUL] @ js ''x''
     @ js ''input'' @ [NUL] @ js ''2'' @ [NUL] @ js ''42''
     @ js ''R''
   \<and> payload (js ''x'') cOptions \<noteq> specFrame (js ''x'') cOptions"
  by code_simp

subsection \<open>Numbers read by \<^verbatim>\<open>Number\<close>\<close>


text \<open>Above \<open>2 ^ 53\<close> the value is rounded: to the even neighbour at a tie.\<close>

lemma rounding_examples:
  "Number_js (js ''9007199254740992'') = Fin 9007199254740992"
  "Number_js (js ''9007199254740993'') = Fin 9007199254740992"
  "Number_js (js ''9007199254740995'') = Fin 9007199254740996"
proof -
  have digits: "list_all isDigit (js ''9007199254740992'')" "list_all isDigit (js ''9007199254740993'')"
    "list_all isDigit (js ''9007199254740995'')"
    by (simp_all add: js_def isDigit_def)
  have dv: "digitsValue (js ''9007199254740992'') = 9007199254740992"
    "digitsValue (js ''9007199254740993'') = 9007199254740993"
    "digitsValue (js ''9007199254740995'') = 9007199254740995"
    by (simp_all add: digitsValue_def js_def)
  have bl: "bitLength 9007199254740992 = 54" "bitLength 9007199254740993 = 54"
    "bitLength 9007199254740995 = 54"
    by (simp_all add: bitLength.simps)
  show "Number_js (js ''9007199254740992'') = Fin 9007199254740992"
    "Number_js (js ''9007199254740993'') = Fin 9007199254740992"
    "Number_js (js ''9007199254740995'') = Fin 9007199254740996"
    by (simp_all add: Number_js_def roundToDouble_def digits dv bl Let_def)
qed

subsection \<open>The result of a run\<close>




subsection \<open>The numbers of the frame\<close>

lemma unat_digitChar: "d < 10 \<Longrightarrow> unat (digitChar d) = 48 + d"
proof -
  assume "d < 10"
  have "unat (of_nat (48 + d) :: jschar) = (48 + d) mod 2 ^ 16"
    by (simp only: unat_of_nat len_of_numeral_defs) simp
  with \<open>d < 10\<close> show ?thesis by (simp only: digitChar_def) simp
qed

lemma isDigit_digitChar: "d < 10 \<Longrightarrow> isDigit (digitChar d)"
  using unat_digitChar [of d] by (simp add: isDigit_def word_le_nat_alt)

lemma digitsValue_snoc: "digitsValue (s @ [c]) = 10 * digitsValue s + (unat c - 48)"
  by (simp add: digitsValue_def)

lemma digitsValue_decimal: "digitsValue (decimal n) = n"
proof (induction n rule: decimal.induct)
  case (1 n)
  show ?case
  proof (cases "n < 10")
    case True
    then show ?thesis
      by (subst decimal.simps) (simp add: digitsValue_def unat_digitChar)
  next
    case False
    with 1 have "digitsValue (decimal (n div 10)) = n div 10" by simp
    with False show ?thesis
      by (subst decimal.simps) (simp add: digitsValue_snoc unat_digitChar)
  qed
qed

lemma decimal_digits: "list_all isDigit (decimal n)"
proof (induction n rule: decimal.induct)
  case (1 n)
  show ?case
  proof (cases "n < 10")
    case True
    then show ?thesis by (subst decimal.simps) (simp add: isDigit_digitChar)
  next
    case False
    with 1 have "list_all isDigit (decimal (n div 10))" by simp
    with False show ?thesis by (subst decimal.simps) (simp add: isDigit_digitChar)
  qed
qed

lemma decimal_nonempty: "decimal n \<noteq> []"
  by (subst decimal.simps) simp

lemma decimal_no_leading_zero: "0 < n \<Longrightarrow> hd (decimal n) \<noteq> 0x30"
proof (induction n rule: decimal.induct)
  case (1 n)
  show ?case
  proof (cases "n < 10")
    case True
    have "unat (digitChar n) \<noteq> unat (0x30 :: jschar)"
      using True "1.prems" by (simp add: unat_digitChar)
    then have "digitChar n \<noteq> 0x30" by auto
    with True show ?thesis by (subst decimal.simps) simp
  next
    case False
    then have "0 < n div 10" by simp
    with 1 False have "hd (decimal (n div 10)) \<noteq> 0x30" by simp
    with False show ?thesis by (subst decimal.simps) (simp add: decimal_nonempty)
  qed
qed

lemma decimal_zero: "decimal 0 = js ''0''"
  by (simp add: decimal_small digitChar_def js_def)

text \<open>
  C7, as the code has it. The frame is the text below. Only the two fields written by
  \<^verbatim>\<open>encodeField\<close>, the code and the input, carry a length, and it is the number of
  bytes of the UTF-8 encoding of the value; in the bytes that are sent the prefix is
  followed by exactly that encoding. \<^verbatim>\<open>Vargs\<close> and \<^verbatim>\<open>VTIO_CFLAGS\<close> carry the number
  of entries of their list, \<^verbatim>\<open>Vlang\<close> the literal 1 and \<^verbatim>\<open>VTIO_OPTIONS\<close> the literal
  0, whatever the values are. Every number is written as its decimal numeral: digits
  only, no leading zero, read back by \<open>digitsValue\<close>. The length is not the number of
  characters: the one-character value U+20AC, whose encoding has three bytes, is
  prefixed with 3 by \<^verbatim>\<open>encodeField\<close>.
\<close>

theorem encodeField_prefix_is_utf8_byte_count:
  "payload code options =
     js ''Vargs'' @ [NUL] @ decimal (length (argv options)) @ [NUL] @ nulTerminated (argv options)
     @ js ''Vlang'' @ [NUL] @ js ''1'' @ [NUL] @ language options @ [NUL]
     @ js ''VTIO_CFLAGS'' @ [NUL] @ decimal (length (cflags options)) @ [NUL]
     @ nulTerminated (cflags options)
     @ js ''VTIO_OPTIONS'' @ [NUL] @ js ''0'' @ [NUL]
     @ js ''F.code.tio'' @ [NUL] @ decimal (length (utf8Encode code)) @ [NUL] @ code
     @ js ''F.input.tio'' @ [NUL] @ decimal (length (utf8Encode (stdin options))) @ [NUL]
     @ stdin options
     @ js ''R''
   \<and> encodeField label v = label @ [NUL] @ decimal (length (utf8Encode v)) @ [NUL] @ v
   \<and> utf8Encode (encodeField label v) =
       utf8Encode label @ [0] @ utf8Encode (decimal (length (utf8Encode v))) @ [0] @ utf8Encode v
   \<and> list_all isDigit (decimal n) \<and> digitsValue (decimal n) = n
   \<and> decimal 0 = js ''0'' \<and> hd (decimal (Suc n)) \<noteq> 0x30
   \<and> length [0x20AC :: jschar] = 1
   \<and> utf8Encode [0x20AC] = [0xE2, 0x82, 0xAC]
   \<and> encodeField label [0x20AC] = label @ [NUL] @ js ''3'' @ [NUL] @ [0x20AC]"
proof -
  have field: "encodeField label w = label @ [NUL] @ decimal (length (utf8Encode w)) @ [NUL] @ w"
    for label w
    by (simp add: encodeField_def encodeLength_def length_utf8Encode)
  have bytes: "utf8Encode (encodeField label v) =
      utf8Encode label @ [0] @ utf8Encode (decimal (length (utf8Encode v))) @ [0] @ utf8Encode v"
    by (simp add: field utf8Encode_snoc_NUL utf8Encode_ascii_append decimal_ascii
        utf8Encode_NUL_Cons)
  have euro: "utf8Encode [0x20AC] = [0xE2, 0x82, 0xAC]"
    by (simp add: encodeUnit_def isHighSurrogate_def isLowSurrogate_def encodeCodePoint_def)
  have three: "decimal 3 = js ''3''"
    by (simp add: decimal_small digitChar_def js_def)
  have len: "length (utf8Encode [0x20AC]) = 3"
    by (simp only: euro) simp
  have small: "encodeField label [0x20AC] = label @ [NUL] @ js ''3'' @ [NUL] @ [0x20AC]"
    by (simp only: field len three)
  have frame: "payload code options =
     js ''Vargs'' @ [NUL] @ decimal (length (argv options)) @ [NUL] @ nulTerminated (argv options)
     @ js ''Vlang'' @ [NUL] @ js ''1'' @ [NUL] @ language options @ [NUL]
     @ js ''VTIO_CFLAGS'' @ [NUL] @ decimal (length (cflags options)) @ [NUL]
     @ nulTerminated (cflags options)
     @ js ''VTIO_OPTIONS'' @ [NUL] @ js ''0'' @ [NUL]
     @ js ''F.code.tio'' @ [NUL] @ decimal (length (utf8Encode code)) @ [NUL] @ code
     @ js ''F.input.tio'' @ [NUL] @ decimal (length (utf8Encode (stdin options))) @ [NUL]
     @ stdin options
     @ js ''R''"
    unfolding payload_def field by simp
  have lead: "hd (decimal (Suc n)) \<noteq> 0x30" by (rule decimal_no_leading_zero) simp
  from frame field [of label v] bytes euro small decimal_digits [of n] digitsValue_decimal [of n]
    decimal_zero lead
  show ?thesis by simp
qed

text \<open>
  C7 as stated, for every field value of the frame, fails: with the one-character,
  three-byte value U+20AC as the only argument, as the language, as the code and as the
  input, the argument and the language are each preceded by 1; only the code and the
  input are preceded by 3.
\<close>

theorem counted_fields_counterexample:
  "length (utf8Encode [0x20AC]) = 3
   \<and> language euroOptions = [0x20AC] \<and> argv euroOptions = [[0x20AC]]
   \<and> payload [0x20AC] euroOptions =
       js ''Vargs'' @ [NUL] @ js ''1'' @ [NUL] @ [0x20AC] @ [NUL]
       @ js ''Vlang'' @ [NUL] @ js ''1'' @ [NUL] @ [0x20AC] @ [NUL]
       @ js ''VTIO_CFLAGS'' @ [NUL] @ js ''0'' @ [NUL]
       @ js ''VTIO_OPTIONS'' @ [NUL] @ js ''0'' @ [NUL]
       @ js ''F.code.tio'' @ [NUL] @ js ''3'' @ [NUL] @ [0x20AC]
       @ js ''F.input.tio'' @ [NUL] @ js ''3'' @ [NUL] @ [0x20AC]
       @ js ''R''
   \<and> js ''1'' \<noteq> js ''3''"
proof -
  have euro: "utf8Encode [0x20AC] = [0xE2, 0x82, 0xAC]"
    by (simp add: encodeUnit_def isHighSurrogate_def isLowSurrogate_def encodeCodePoint_def)
  have len: "length (utf8Encode [0x20AC]) = 3" by (simp only: euro) simp
  have bl: "unitByteLength 0x20AC = 3" by (simp add: unitByteLength_def)
  have dec: "decimal 0 = js ''0''" "decimal (Suc 0) = js ''1''" "decimal 3 = js ''3''"
    by (simp_all add: decimal_small digitChar_def js_def)
  have frame: "payload [0x20AC] euroOptions =
       js ''Vargs'' @ [NUL] @ js ''1'' @ [NUL] @ [0x20AC] @ [NUL]
       @ js ''Vlang'' @ [NUL] @ js ''1'' @ [NUL] @ [0x20AC] @ [NUL]
       @ js ''VTIO_CFLAGS'' @ [NUL] @ js ''0'' @ [NUL]
       @ js ''VTIO_OPTIONS'' @ [NUL] @ js ''0'' @ [NUL]
       @ js ''F.code.tio'' @ [NUL] @ js ''3'' @ [NUL] @ [0x20AC]
       @ js ''F.input.tio'' @ [NUL] @ js ''3'' @ [NUL] @ [0x20AC]
       @ js ''R''"
    by (simp add: payload_def euroOptions_def encodeField_def encodeLength_def nulTerminated_def
        bl dec)
  have "js ''1'' \<noteq> js ''3''" by (simp add: js_def)
  with len frame show ?thesis by (simp add: euroOptions_def)
qed

subsection \<open>Sections that are accepted and sections that are refused\<close>

lemma floatLiteral_floatToken:
  assumes "floatLiteral t"
  shows "floatToken t"
proof -
  let ?ip = "takeWhile isDigit t" and ?rest = "dropWhile isDigit t"
  have t: "t = ?ip @ ?rest" by simp
  from assms [unfolded floatLiteral_def Let_def] have ip: "?ip \<noteq> []"
    and rest: "?rest = [] \<or> (hd ?rest = 0x2E \<and> tl ?rest \<noteq> [] \<and> list_all isDigit (tl ?rest))"
    by blast+
  have a: "list_all isDigitOrDot ?ip"
    by (auto simp: list_all_iff isDigitOrDot_def dest: set_takeWhileD)
  have b: "list_all isDigitOrDot ?rest"
  proof (cases "?rest")
    case Nil
    show ?thesis unfolding Nil by simp
  next
    case (Cons c r)
    from rest have "c = 0x2E" "list_all isDigit r" unfolding Cons by simp_all
    then show ?thesis unfolding Cons by (auto simp: list_all_iff isDigitOrDot_def)
  qed
  from a b have "list_all isDigitOrDot t" by (metis list_all_append takeWhile_dropWhile_id)
  moreover from ip have "t \<noteq> []" by auto
  ultimately show ?thesis by (simp add: floatToken_def)
qed

lemma endsWithMetricLines_tokens: "endsWithMetricLines seg \<Longrightarrow> endsWithMetricTokens seg"
  unfolding endsWithMetricLines_def endsWithMetricTokens_def
  by (blast intro: floatLiteral_floatToken)

lemma length_le_takeWhile:
  "list_all P g \<Longrightarrow> length g \<le> length (takeWhile P (g @ t))"
  by (simp add: takeWhile_append2 list_all_iff)

lemma matchHere_Lit_hit:
  assumes "Bol \<notin> set r" and "matchHere r p0 t st0 \<noteq> None"
  shows "matchHere (Lit l # r) p (l @ t) st \<noteq> None"
proof -
  have "(matchHere r p0 t st0 = None)
      = (matchHere r (if l = [] then p else Some (last l)) t (consume l st) = None)"
    by (rule matchHere_None_indep [OF assms(1)])
  with assms(2) show ?thesis by simp
qed

lemma matchHere_group_hit:
  assumes nb: "Bol \<notin> set r" and cls: "list_all cls g" and lo: "lo \<le> length g"
    and rest: "matchHere r p0 t st0 \<noteq> None"
  shows "matchHere (Open # Rep lo cls # Close # r) p (g @ t) (caps, cur) \<noteq> None"
proof -
  let ?s = "g @ t"
  let ?f = "\<lambda>k. matchHere (Close # r) (if k = 0 then p else Some (?s ! (k - 1))) (drop k ?s)
              (consume (take k ?s) (caps, Some []))"
  have "?f (length g) = matchHere r (if length g = 0 then p else Some (?s ! (length g - 1))) t
      (caps @ [g], None)"
    by simp
  moreover have "(matchHere r p0 t st0 = None)
      = (matchHere r (if length g = 0 then p else Some (?s ! (length g - 1))) t
           (caps @ [g], None) = None)"
    by (rule matchHere_None_indep [OF nb])
  ultimately have "?f (length g) \<noteq> None" using rest by (simp only:) simp
  moreover have "length g \<le> length (takeWhile cls ?s)" using cls by (rule length_le_takeWhile)
  ultimately have "tryDown ?f lo (length (takeWhile cls ?s)) \<noteq> None"
    using lo by (intro tryDown_hit [where j = "length g"]) simp_all
  then show ?thesis by simp
qed

lemma matchHere_End_hit: "matchHere [End] p [] st \<noteq> None"
  by (cases st) simp

lemma matchHere_last_group_hit:
  assumes "list_all cls g" and "lo \<le> length g"
  shows "matchHere [Open, Rep lo cls, Close, End] p g (caps, cur) \<noteq> None"
  using matchHere_group_hit [where r = "[End]" and t = "[]" and g = g and cls = cls and lo = lo
      and p = p and caps = caps and cur = cur and ?p0.0 = None and ?st0.0 = "([], None)"] assms
  by simp

text \<open>The pattern accepts every text of the form it describes.\<close>

lemma DEBUG_REGEX_complete:
  assumes "floatToken rt" "floatToken ut" "floatToken st" "floatToken cs" "intToken ec"
  shows "regexMatch DEBUG_REGEX (debug @ metricsBlock rt ut st cs ec) \<noteq> None"
proof -
  from assms have tok:
    "list_all isDigitOrDot rt" "1 \<le> length rt" "list_all isDigitOrDot ut" "1 \<le> length ut"
    "list_all isDigitOrDot st" "1 \<le> length st" "list_all isDigitOrDot cs" "1 \<le> length cs"
    "list_all isDigit ec" "1 \<le> length ec"
    by (auto simp: floatToken_def intToken_def Suc_le_eq)
  have any: "list_all anyChar debug" "0 \<le> length debug"
    by (simp_all add: list_all_iff anyChar_def)
  have "matchHere DEBUG_REGEX None (debug @ metricsBlock rt ut st cs ec) ([], None) \<noteq> None"
    unfolding DEBUG_REGEX_def metricsBlock_def append_assoc
    apply (rule matchHere_group_hit [OF _ any]) apply simp
    apply (rule matchHere_Lit_hit) apply simp
    apply (rule matchHere_group_hit [OF _ tok(1,2)]) apply simp
    apply (rule matchHere_Lit_hit [where l = "js '' s'' @ [LF] @ js ''User time: ''", unfolded append_assoc]) apply simp
    apply (rule matchHere_group_hit [OF _ tok(3,4)]) apply simp
    apply (rule matchHere_Lit_hit [where l = "js '' s'' @ [LF] @ js ''Sys. time: ''", unfolded append_assoc]) apply simp
    apply (rule matchHere_group_hit [OF _ tok(5,6)]) apply simp
    apply (rule matchHere_Lit_hit [where l = "js '' s'' @ [LF] @ js ''CPU share: ''", unfolded append_assoc]) apply simp
    apply (rule matchHere_group_hit [OF _ tok(7,8)]) apply simp
    apply (rule matchHere_Lit_hit [where l = "js '' %'' @ [LF] @ js ''Exit code: ''", unfolded append_assoc]) apply simp
    apply (rule matchHere_last_group_hit [OF tok(9,10)])
    done
  then show ?thesis
    by (cases "debug @ metricsBlock rt ut st cs ec") (auto simp: regexMatch_def split: option.splits)
qed

lemma endsWithMetricTokens_last_digit:
  assumes "endsWithMetricTokens seg"
  shows "seg \<noteq> [] \<and> isDigit (last seg)"
proof -
  from assms obtain debug rt ut st cs ec where
    ec: "intToken ec" and seg: "seg = debug @ metricsBlock rt ut st cs ec"
    unfolding endsWithMetricTokens_def by blast
  from ec have ne: "ec \<noteq> []" and "isDigit (last ec)"
    by (auto simp: intToken_def list_all_iff)
  moreover from ne have "last seg = last ec" by (simp add: seg metricsBlock_def)
  ultimately show ?thesis by (simp add: seg metricsBlock_def)
qed

text \<open>
  In a section that ends with the metric lines, the CPU share is what stands between
  \<^verbatim>\<open>CPU share: \<close> and the last line: it can be read off from the end.
\<close>

lemma endsWithMetricLines_cpu_share:
  assumes "endsWithMetricLines seg"
  shows "floatLiteral (rev (takeWhile isDigitOrDot (drop 14 (dropWhile isDigit (rev seg)))))"
proof -
  from assms obtain debug rt ut st cs ec where
    cs: "floatLiteral cs" and ec: "intToken ec" and seg: "seg = debug @ metricsBlock rt ut st cs ec"
    unfolding endsWithMetricLines_def by blast
  define A where "A = debug @ js ''Real time: '' @ rt @ js '' s'' @ [LF]
     @ js ''User time: '' @ ut @ js '' s'' @ [LF]
     @ js ''Sys. time: '' @ st @ js '' s'' @ [LF]"
  define X where "X = js '' %'' @ [LF] @ js ''Exit code: ''"
  define Y where "Y = js ''CPU share: ''"
  have seg': "rev seg = rev ec @ rev X @ rev cs @ rev Y @ rev A"
    by (simp add: seg metricsBlock_def A_def X_def Y_def)
  have X: "rev X = 0x20 # rev (butlast X)" "length X = 14"
    by (simp_all add: X_def js_def)
  have Y: "rev Y = 0x20 # rev (butlast Y)"
    by (simp add: Y_def js_def)
  have sp: "\<not> isDigit 0x20" "\<not> isDigitOrDot 0x20"
    by (simp_all add: isDigit_def isDigitOrDot_def)
  from ec have ecd: "\<And>x. x \<in> set (rev ec) \<Longrightarrow> isDigit x"
    by (simp add: intToken_def list_all_iff)
  from cs have "floatToken cs" by (rule floatLiteral_floatToken)
  then have csd: "\<And>x. x \<in> set (rev cs) \<Longrightarrow> isDigitOrDot x"
    by (simp add: floatToken_def list_all_iff)
  have "dropWhile isDigit (rev ec @ rev X @ rev cs @ rev Y @ rev A)
      = dropWhile isDigit (rev X @ rev cs @ rev Y @ rev A)"
    by (rule dropWhile_append2) (rule ecd)
  also have "\<dots> = rev X @ rev cs @ rev Y @ rev A"
    by (simp add: X(1) sp)
  finally have 1: "dropWhile isDigit (rev seg) = rev X @ rev cs @ rev Y @ rev A"
    unfolding seg' .
  have 2: "drop 14 (rev X @ rev cs @ rev Y @ rev A) = rev cs @ rev Y @ rev A"
    using X(2) by simp
  have "takeWhile isDigitOrDot (rev cs @ rev Y @ rev A)
      = rev cs @ takeWhile isDigitOrDot (rev Y @ rev A)"
    by (rule takeWhile_append2) (rule csd)
  also have "\<dots> = rev cs"
    by (simp add: Y sp)
  finally have 3: "takeWhile isDigitOrDot (rev cs @ rev Y @ rev A) = rev cs" .
  show ?thesis unfolding 1 2 3 using cs by simp
qed

text \<open>
  C9, as the code has it. Decoding raises an error, and so yields no result, not even a
  partial one, exactly when the decompressed text has fewer than two sections
  (\<open>UnexpectedFormat\<close>) or its section 1 does not end with the metric lines as the
  pattern reads them (\<open>DiagnosticsUnparsable\<close>): any text, then a non-empty run of
  digits and dots after each of \<^verbatim>\<open>Real time: \<close>, \<^verbatim>\<open>User time: \<close>, \<^verbatim>\<open>Sys. time: \<close>
  and \<^verbatim>\<open>CPU share: \<close>, and a non-empty run of digits after \<^verbatim>\<open>Exit code: \<close>, up to the
  end of the section. A section that ends with the metric lines of the specification's
  grammar is one of these.
\<close>

theorem malformed_payload_is_parse_error:
  "(length (sections content) < 2 \<longrightarrow> decodeResponse content b = Inl UnexpectedFormat)
   \<and> (2 \<le> length (sections content) \<and> \<not> endsWithMetricTokens (sections content ! 1) \<longrightarrow>
        decodeResponse content b = Inl DiagnosticsUnparsable)
   \<and> ((\<exists>err. decodeResponse content b = Inl err)
        \<longleftrightarrow> length (sections content) < 2 \<or> \<not> endsWithMetricTokens (sections content ! 1))
   \<and> (endsWithMetricLines seg \<longrightarrow> endsWithMetricTokens seg)"
proof -
  have unparsable: "decodeResponse content b = Inl DiagnosticsUnparsable"
    if len: "2 \<le> length (sections content)" and bad: "\<not> endsWithMetricTokens (sections content ! 1)"
  proof (cases "regexMatch DEBUG_REGEX (sections content ! 1)")
    case None
    with len show ?thesis by (simp add: decodeResponse_def Let_def)
  next
    case (Some m)
    from regexMatch_DEBUG_REGEX_sound [OF Some] have "endsWithMetricTokens (sections content ! 1)"
      unfolding endsWithMetricTokens_def by blast
    with bad show ?thesis by simp
  qed
  have short: "decodeResponse content b = Inl UnexpectedFormat"
    if "length (sections content) < 2"
    using that by (simp add: decodeResponse_def Let_def)
  have accepted: "\<exists>r. decodeResponse content b = Inr r"
    if len: "2 \<le> length (sections content)" and good: "endsWithMetricTokens (sections content ! 1)"
  proof -
    from good obtain debug rt ut st cs ec where
      "floatToken rt" "floatToken ut" "floatToken st" "floatToken cs" "intToken ec"
      "sections content ! 1 = debug @ metricsBlock rt ut st cs ec"
      unfolding endsWithMetricTokens_def by blast
    with DEBUG_REGEX_complete [of rt ut st cs ec debug]
    obtain m where "regexMatch DEBUG_REGEX (sections content ! 1) = Some m" by auto
    with len show ?thesis by (simp add: decodeResponse_def Let_def)
  qed
  have iff: "(\<exists>err. decodeResponse content b = Inl err)
        \<longleftrightarrow> length (sections content) < 2 \<or> \<not> endsWithMetricTokens (sections content ! 1)"
  proof (cases "length (sections content) < 2")
    case True
    with short show ?thesis by simp
  next
    case False
    then have len: "2 \<le> length (sections content)" by simp
    show ?thesis
    proof (cases "endsWithMetricTokens (sections content ! 1)")
      case True
      with accepted [OF len] False show ?thesis by auto
    next
      case bad: False
      with unparsable [OF len] False show ?thesis by simp
    qed
  qed
  from short unparsable iff endsWithMetricLines_tokens [of seg] show ?thesis by blast
qed

theorem malformed_payload_is_parse_error_witness:
  "length (sections (js ''0123456789abcdefhello'')) < 2
   \<and> decodeResponse (js ''0123456789abcdefhello'') False = Inl UnexpectedFormat
   \<and> 2 \<le> length (sections truncatedContent)
   \<and> \<not> endsWithMetricTokens (sections truncatedContent ! 1)
   \<and> decodeResponse truncatedContent False = Inl DiagnosticsUnparsable"
proof -
  have s1: "sections (js ''0123456789abcdefhello'') = [js ''hello'']" by code_simp
  have s2: "sections truncatedContent = [js ''hello'', js ''Real time: 0.12 s'' @ [LF] @ js ''killed'']"
    by code_simp
  have l1: "length (sections (js ''0123456789abcdefhello'')) < 2" by (simp add: s1)
  have l2: "2 \<le> length (sections truncatedContent)" by (simp add: s2)
  have "\<not> isDigit (last (sections truncatedContent ! 1))"
    unfolding s2 by (simp add: js_def isDigit_def)
  with endsWithMetricTokens_last_digit have bad: "\<not> endsWithMetricTokens (sections truncatedContent ! 1)"
    by blast
  from malformed_payload_is_parse_error [of "js ''0123456789abcdefhello''" False]
    malformed_payload_is_parse_error [of truncatedContent False] l1 l2 bad
  show ?thesis by blast
qed

text \<open>
  C9 as stated, with the metric lines of the specification's grammar, fails: a section 1
  whose fourth metric line is \<^verbatim>\<open>CPU share: .. %\<close> does not end with the required metric
  lines, \<^verbatim>\<open>..\<close> being no float, and yet decoding raises nothing and returns a result,
  with the CPU share \<^verbatim>\<open>NaN\<close>.
\<close>

theorem dots_metric_counterexample:
  "sections dotsContent = [js ''hello'', dotsDiagnostics]
   \<and> \<not> endsWithMetricLines dotsDiagnostics
   \<and> decodeResponse dotsContent False
       = Inr \<lparr> output = js ''hello'', timedOut = False, realTime = Fin (12 / 100),
               userTime = Fin (3 / 100), sysTime = Fin (1 / 100), CPUshare = NaN,
               exitCode = Fin 0 \<rparr>"
proof -
  have s: "sections dotsContent = [js ''hello'', dotsDiagnostics]" by code_simp
  have "\<not> floatLiteral (rev (takeWhile isDigitOrDot (drop 14 (dropWhile isDigit (rev dotsDiagnostics)))))"
    by code_simp
  with endsWithMetricLines_cpu_share have bad: "\<not> endsWithMetricLines dotsDiagnostics" by blast
  have d: "decodeResponse dotsContent False
       = Inr \<lparr> output = js ''hello'', timedOut = False, realTime = Fin (12 / 100),
               userTime = Fin (3 / 100), sysTime = Fin (1 / 100), CPUshare = NaN,
               exitCode = Fin 0 \<rparr>"
    by code_simp
  from s bad d show ?thesis by blast
qed

subsection \<open>Reuse and refresh of the cached endpoint\<close>

lemma fetchText_InrD:
  assumes "fetchText e path w = (Inr text, w')"
  shows "\<exists>r. serve e (length (requests w)) (GET (TIO_BASE_URL @ path)) = Fulfilled r \<and> ok r
           \<and> text = bodyText r"
  using assms by (auto simp: fetchText_def Let_def split: settled.splits if_splits)

lemma searchFrom_prevD:
  "searchFrom re prev s = Some m \<Longrightarrow>
   \<exists>pre suf. s = pre @ suf
     \<and> matchHere re (if pre = [] then prev else Some (last pre)) suf ([], None) = Some m"
proof (induction s arbitrary: prev)
  case Nil
  then show ?case by auto
next
  case (Cons c cs)
  show ?case
  proof (cases "matchHere re prev (c # cs) ([], None)")
    case None
    with Cons.prems have "searchFrom re (Some c) cs = Some m" by simp
    with Cons.IH obtain pre suf where "cs = pre @ suf"
      "matchHere re (if pre = [] then Some c else Some (last pre)) suf ([], None) = Some m"
      by blast
    then show ?thesis by (intro exI [of _ "c # pre"] exI [of _ suf]) auto
  next
    case (Some a)
    with Cons.prems have "matchHere re prev (c # cs) ([], None) = Some m" by simp
    then show ?thesis by (intro exI [of _ "[]"] exI [of _ "c # cs"]) simp
  qed
qed

lemma matchHere_LitD_open:
  assumes "matchHere (Lit l # r) prev s (caps, cur) = Some m"
  shows "\<exists>t p. s = l @ t \<and> matchHere r p t (caps, map_option (\<lambda>c. c @ l) cur) = Some m"
proof -
  from assms have p: "prefix l s"
    and m: "matchHere r (if l = [] then prev else Some (last l)) (drop (length l) s)
              (caps, map_option (\<lambda>c. c @ l) cur) = Some m"
    by (auto split: if_splits)
  from p obtain t where "s = l @ t" by (auto simp: prefix_def)
  with m show ?thesis by auto
qed

lemma matchHere_RepD_open:
  assumes "matchHere (Rep lo cls # r) prev s (caps, cur) = Some m"
  shows "\<exists>g t p. s = g @ t \<and> lo \<le> length g \<and> list_all cls g
           \<and> matchHere r p t (caps, map_option (\<lambda>c. c @ g) cur) = Some m"
proof -
  from assms obtain k where k: "lo \<le> k" "k \<le> length (takeWhile cls s)"
    and m: "matchHere r (if k = 0 then prev else Some (s ! (k - 1))) (drop k s)
              (caps, map_option (\<lambda>c. c @ take k s) cur) = Some m"
    by (auto dest!: tryDown_SomeD)
  have "k \<le> length s" using k(2) length_takeWhile_le [of cls s] by simp
  then have "length (take k s) = k" by simp
  with k m take_le_takeWhile [OF k(2)] show ?thesis
    by (intro exI [of _ "take k s"] exI [of _ "drop k s"]) auto
qed

lemma matchHere_BolD:
  "matchHere (Bol # r) p s st = Some m \<Longrightarrow>
   (p = None \<or> (\<exists>c. p = Some c \<and> isLineTerminator c)) \<and> matchHere r p s st = Some m"
  by (auto split: option.splits if_splits)

lemma matchHere_EolD:
  "matchHere [Eol] p s (caps, None) = Some m \<Longrightarrow> (s = [] \<or> isLineTerminator (hd s)) \<and> m = caps"
  by (cases s) (auto split: if_splits)

text \<open>What a match of \<open>SCRIPT_REGEX\<close> says about the landing page.\<close>

lemma SCRIPT_REGEX_sound:
  assumes "regexMatch SCRIPT_REGEX html = Some m"
  shows "\<exists>pre hex post. m = [js ''/static/'' @ hex @ js ''-frontend.js'']
           \<and> hex \<noteq> [] \<and> list_all isLowerHex hex
           \<and> html = pre @ scriptTag (js ''/static/'' @ hex @ js ''-frontend.js'') @ post"
proof -
  from assms obtain pre suf p where s0: "html = pre @ suf"
    and m0: "matchHere SCRIPT_REGEX p suf ([], None) = Some m"
    unfolding regexMatch_def by (blast dest: searchFrom_SomeD)
  from matchHere_LitD_open [OF m0 [unfolded SCRIPT_REGEX_def]] obtain t1 p1 where
    s1: "suf = (js ''<script src='' @ [dquote]) @ t1" and m1: "matchHere
      [Lit (js ''/static/''), Rep 1 isLowerHex, Lit (js ''-frontend.js''), Close,
       Lit ([dquote] @ js '' defer></script>'')] p1 t1 ([], Some []) = Some m"
    by auto
  from matchHere_LitD_open [OF m1] obtain t2 p2 where
    s2: "t1 = js ''/static/'' @ t2" and m2: "matchHere
      [Rep 1 isLowerHex, Lit (js ''-frontend.js''), Close,
       Lit ([dquote] @ js '' defer></script>'')] p2 t2 ([], Some (js ''/static/'')) = Some m"
    by auto
  from matchHere_RepD_open [OF m2] obtain hex t3 p3 where
    s3: "t2 = hex @ t3" and hex: "1 \<le> length hex" "list_all isLowerHex hex" and m3: "matchHere
      [Lit (js ''-frontend.js''), Close,
       Lit ([dquote] @ js '' defer></script>'')] p3 t3 ([], Some (js ''/static/'' @ hex)) = Some m"
    by auto
  from matchHere_LitD_open [OF m3] obtain t4 p4 where
    s4: "t3 = js ''-frontend.js'' @ t4" and m4: "matchHere
      [Lit ([dquote] @ js '' defer></script>'')] p4 t4
        ([(js ''/static/'' @ hex) @ js ''-frontend.js''], None) = Some m"
    by auto
  from matchHere_LitD_open [OF m4] obtain t5 where
    s5: "t4 = ([dquote] @ js '' defer></script>'') @ t5"
    and fin: "m = [(js ''/static/'' @ hex) @ js ''-frontend.js'']"
    by auto
  have "html = pre @ scriptTag (js ''/static/'' @ hex @ js ''-frontend.js'') @ t5"
    by (simp add: s0 s1 s2 s3 s4 s5 scriptTag_def)
  with hex fin show ?thesis by (intro exI [of _ pre] exI [of _ hex] exI [of _ t5]) auto
qed

text \<open>What a match of \<open>RUN_URL_REGEX\<close> says about the frontend script.\<close>

lemma RUN_URL_REGEX_sound:
  assumes "regexMatch RUN_URL_REGEX script = Some m"
  shows "\<exists>pre new post. m = [new] \<and> new \<noteq> [] \<and> dquote \<notin> set new
           \<and> script = pre @ runUrlLine new @ post
           \<and> (pre = [] \<or> isLineTerminator (last pre))
           \<and> (post = [] \<or> isLineTerminator (hd post))"
proof -
  from assms obtain pre suf where s0: "script = pre @ suf"
    and m0: "matchHere RUN_URL_REGEX (if pre = [] then None else Some (last pre)) suf ([], None) = Some m"
    unfolding regexMatch_def by (blast dest: searchFrom_prevD)
  from matchHere_BolD [OF m0 [unfolded RUN_URL_REGEX_def]]
  have bol: "pre = [] \<or> isLineTerminator (last pre)"
    and m0': "matchHere
      [Lit (js ''var runURL = '' @ [dquote] @ js ''/cgi-bin/static/''),
       Open, Rep 1 notQuote, Close, Lit ([dquote] @ js '';''), Eol]
      (if pre = [] then None else Some (last pre)) suf ([], None) = Some m"
    by (auto split: if_splits)
  from matchHere_LitD [OF m0'] obtain t1 p1 where
    s1: "suf = (js ''var runURL = '' @ [dquote] @ js ''/cgi-bin/static/'') @ t1" and m1: "matchHere
      [Open, Rep 1 notQuote, Close, Lit ([dquote] @ js '';''), Eol] p1 t1 ([], None) = Some m"
    by blast
  from matchHere_groupD [OF m1] obtain new t2 p2 where
    s2: "t1 = new @ t2" and new: "1 \<le> length new" "list_all notQuote new" and m2: "matchHere
      [Lit ([dquote] @ js '';''), Eol] p2 t2 ([] @ [new], None) = Some m"
    by blast
  from matchHere_LitD [OF m2] obtain t3 p3 where
    s3: "t2 = ([dquote] @ js '';'') @ t3" and m3: "matchHere [Eol] p3 t3 ([] @ [new], None) = Some m"
    by blast
  from matchHere_EolD [OF m3] have eol: "t3 = [] \<or> isLineTerminator (hd t3)" and fin: "m = [new]"
    by simp_all
  have "script = pre @ runUrlLine new @ t3"
    by (simp add: s0 s1 s2 s3 runUrlLine_def)
  moreover from new have "new \<noteq> []" "dquote \<notin> set new"
    by (auto simp: list_all_iff notQuote_def)
  ultimately show ?thesis using bol eol fin
    by (intro exI [of _ pre] exI [of _ new] exI [of _ t3]) simp
qed

lemma ensureRunUrl_resolved:
  assumes stale: "\<not> (runUrl w \<noteq> None \<and> now w < nextRefreshAt w)"
    and ok: "ensureRunUrl e w = (Inr (), w')"
  shows "\<exists>r1 m r2 m'.
           serve e (length (requests w)) (GET (TIO_BASE_URL @ js ''/'')) = Fulfilled r1 \<and> ok r1
           \<and> regexMatch SCRIPT_REGEX (bodyText r1) = Some m
           \<and> serve e (Suc (length (requests w))) (GET (TIO_BASE_URL @ m ! 0)) = Fulfilled r2 \<and> ok r2
           \<and> regexMatch RUN_URL_REGEX (bodyText r2) = Some m'
           \<and> requests w' = requests w @ [GET (TIO_BASE_URL @ js ''/''), GET (TIO_BASE_URL @ m ! 0)]
           \<and> runUrl w' = Some (m' ! 0)
           \<and> nextRefreshAt w' = now w' + RUN_URL_REFRESH_MS"
  using stale
proof (cases rule: ensureRunUrl_stale_cases [where e = e])
  case (resolved html w1 m script w2 m')
  from fetchText_InrD [OF resolved(1)] obtain r1 where
    r1: "serve e (length (requests w)) (GET (TIO_BASE_URL @ js ''/'')) = Fulfilled r1" "ok r1"
      "html = bodyText r1"
    by blast
  from fetchText_frame [OF resolved(1)] have len: "length (requests w1) = Suc (length (requests w))"
    by simp
  from fetchText_InrD [OF resolved(4)] len obtain r2 where
    r2: "serve e (Suc (length (requests w))) (GET (TIO_BASE_URL @ m ! 0)) = Fulfilled r2" "ok r2"
      "script = bodyText r2"
    by auto
  from ok resolved(7) have w': "w' = w2\<lparr> runUrl := Some (m' ! 0), nextRefreshAt := now w2 + RUN_URL_REFRESH_MS \<rparr>"
    by simp
  from fetchText_frame [OF resolved(1)] fetchText_frame [OF resolved(4)]
  have "requests w2 = requests w @ [GET (TIO_BASE_URL @ js ''/''), GET (TIO_BASE_URL @ m ! 0)]"
    by simp
  with w' have "requests w' = requests w @ [GET (TIO_BASE_URL @ js ''/''), GET (TIO_BASE_URL @ m ! 0)]"
    "runUrl w' = Some (m' ! 0)" "nextRefreshAt w' = now w' + RUN_URL_REFRESH_MS"
    by simp_all
  with r1 r2 resolved(2,5) show ?thesis by blast
qed (use ok in simp_all)

text \<open>Every call that finds the cache empty or expired issues a request.\<close>

lemma ensureRunUrl_stale_fetches:
  assumes "\<not> (runUrl w \<noteq> None \<and> now w < nextRefreshAt w)"
  shows "requests (snd (ensureRunUrl e w)) \<noteq> requests w"
  using ensureRunUrl_frame [of e w "fst (ensureRunUrl e w)" "snd (ensureRunUrl e w)"] assms
  by auto

text \<open>
  C8, as the code has it. While the cache is populated and the clock is before
  \<open>nextRefreshAt\<close>, \<open>ensureRunUrl\<close> changes nothing and issues no request. Every call
  that finds the cache empty or expired fetches. When such a call succeeds, it has
  issued exactly the two discovery requests, once each; the landing page it was served
  contains the script element that names the path it requested next; the script it was
  served contains, on a line of its own, the assignment of the execution path; the
  endpoint it has stored is the one named there; the expiry is 850000 ms (between 14
  and 15 minutes) after the clock at that moment; and any later call before that expiry
  is a no-op again. When such a call fails, the cache is still empty or expired, and
  every later call fetches again. A call that starts while the cache is as an earlier
  call found it (a call writes the cache in its last two statements only) fetches as
  well. Nothing refreshes the cache except a call.
\<close>

theorem cached_endpoint_reused_until_expiry:
  "(runUrl w \<noteq> None \<and> now w < nextRefreshAt w \<longrightarrow> ensureRunUrl e w = (Inr (), w))
   \<and> (\<not> (runUrl w \<noteq> None \<and> now w < nextRefreshAt w) \<and> ensureRunUrl e w = (Inr (), w') \<longrightarrow>
        (\<exists>landing path hex script new pre post pre' post'.
            serve e (length (requests w)) (GET (TIO_BASE_URL @ js ''/'')) = Fulfilled landing
            \<and> ok landing
            \<and> regexMatch SCRIPT_REGEX (bodyText landing) = Some [path]
            \<and> path = js ''/static/'' @ hex @ js ''-frontend.js'' \<and> hex \<noteq> [] \<and> list_all isLowerHex hex
            \<and> bodyText landing = pre @ scriptTag path @ post
            \<and> serve e (Suc (length (requests w))) (GET (TIO_BASE_URL @ path)) = Fulfilled script
            \<and> ok script
            \<and> regexMatch RUN_URL_REGEX (bodyText script) = Some [new]
            \<and> new \<noteq> [] \<and> dquote \<notin> set new
            \<and> bodyText script = pre' @ runUrlLine new @ post'
            \<and> (pre' = [] \<or> isLineTerminator (last pre'))
            \<and> (post' = [] \<or> isLineTerminator (hd post'))
            \<and> requests w' = requests w @ [GET (TIO_BASE_URL @ js ''/''), GET (TIO_BASE_URL @ path)]
            \<and> runUrl w' = Some new)
        \<and> nextRefreshAt w' = now w' + 850000
        \<and> (\<forall>e' t. t < nextRefreshAt w' \<longrightarrow>
              ensureRunUrl e' (w'\<lparr>now := t\<rparr>) = (Inr (), w'\<lparr>now := t\<rparr>)))
   \<and> (\<not> (runUrl w \<noteq> None \<and> now w < nextRefreshAt w) \<longrightarrow>
        requests (snd (ensureRunUrl e w)) \<noteq> requests w)
   \<and> (\<not> (runUrl w \<noteq> None \<and> now w < nextRefreshAt w)
        \<and> runUrl v = runUrl w \<and> nextRefreshAt v = nextRefreshAt w \<and> now w \<le> now v \<longrightarrow>
        requests (snd (ensureRunUrl e' v)) \<noteq> requests v)
   \<and> (\<not> (runUrl w \<noteq> None \<and> now w < nextRefreshAt w) \<and> ensureRunUrl e w = (Inl err, w') \<longrightarrow>
        (\<forall>e' t. now w' \<le> t \<longrightarrow>
           requests (snd (ensureRunUrl e' (w'\<lparr>now := t\<rparr>))) \<noteq> requests w'))
   \<and> 14 * 60 * 1000 \<le> RUN_URL_REFRESH_MS \<and> RUN_URL_REFRESH_MS < 15 * 60 * 1000"
proof -
  have a: "runUrl w \<noteq> None \<and> now w < nextRefreshAt w \<longrightarrow> ensureRunUrl e w = (Inr (), w)"
    by (simp add: ensureRunUrl_fresh)
  have b: "\<not> (runUrl w \<noteq> None \<and> now w < nextRefreshAt w) \<and> ensureRunUrl e w = (Inr (), w') \<longrightarrow>
        (\<exists>landing path hex script new pre post pre' post'.
            serve e (length (requests w)) (GET (TIO_BASE_URL @ js ''/'')) = Fulfilled landing
            \<and> ok landing
            \<and> regexMatch SCRIPT_REGEX (bodyText landing) = Some [path]
            \<and> path = js ''/static/'' @ hex @ js ''-frontend.js'' \<and> hex \<noteq> [] \<and> list_all isLowerHex hex
            \<and> bodyText landing = pre @ scriptTag path @ post
            \<and> serve e (Suc (length (requests w))) (GET (TIO_BASE_URL @ path)) = Fulfilled script
            \<and> ok script
            \<and> regexMatch RUN_URL_REGEX (bodyText script) = Some [new]
            \<and> new \<noteq> [] \<and> dquote \<notin> set new
            \<and> bodyText script = pre' @ runUrlLine new @ post'
            \<and> (pre' = [] \<or> isLineTerminator (last pre'))
            \<and> (post' = [] \<or> isLineTerminator (hd post'))
            \<and> requests w' = requests w @ [GET (TIO_BASE_URL @ js ''/''), GET (TIO_BASE_URL @ path)]
            \<and> runUrl w' = Some new)
        \<and> nextRefreshAt w' = now w' + 850000
        \<and> (\<forall>e' t. t < nextRefreshAt w' \<longrightarrow>
              ensureRunUrl e' (w'\<lparr>now := t\<rparr>) = (Inr (), w'\<lparr>now := t\<rparr>))"
  proof (intro impI, elim conjE)
    assume stale: "\<not> (runUrl w \<noteq> None \<and> now w < nextRefreshAt w)"
      and ok: "ensureRunUrl e w = (Inr (), w')"
    from ensureRunUrl_resolved [OF stale ok] obtain r1 m r2 m' where
      r1: "serve e (length (requests w)) (GET (TIO_BASE_URL @ js ''/'')) = Fulfilled r1" "ok r1"
      and m: "regexMatch SCRIPT_REGEX (bodyText r1) = Some m"
      and r2: "serve e (Suc (length (requests w))) (GET (TIO_BASE_URL @ m ! 0)) = Fulfilled r2" "ok r2"
      and m': "regexMatch RUN_URL_REGEX (bodyText r2) = Some m'"
      and reqs: "requests w' = requests w @ [GET (TIO_BASE_URL @ js ''/''), GET (TIO_BASE_URL @ m ! 0)]"
      and new: "runUrl w' = Some (m' ! 0)"
      and exp: "nextRefreshAt w' = now w' + RUN_URL_REFRESH_MS"
      by blast
    from SCRIPT_REGEX_sound [OF m] obtain pre hex post where
      path: "m = [js ''/static/'' @ hex @ js ''-frontend.js'']" and hex: "hex \<noteq> []" "list_all isLowerHex hex"
      and html: "bodyText r1 = pre @ scriptTag (js ''/static/'' @ hex @ js ''-frontend.js'') @ post"
      by blast
    from RUN_URL_REGEX_sound [OF m'] obtain pre' new' post' where
      line: "m' = [new']" and new': "new' \<noteq> []" "dquote \<notin> set new'"
      and script: "bodyText r2 = pre' @ runUrlLine new' @ post'"
      and bounds: "pre' = [] \<or> isLineTerminator (last pre')" "post' = [] \<or> isLineTerminator (hd post')"
      by blast
    have m0: "m ! 0 = js ''/static/'' @ hex @ js ''-frontend.js''" unfolding path by simp
    have m'0: "m' ! 0 = new'" unfolding line by simp
    note m1 = m [unfolded path] and m1' = m' [unfolded line]
      and r2' = r2(1) [unfolded m0] and reqs' = reqs [unfolded m0] and stored = new [unfolded m'0]
    have docs: "\<exists>landing path hex script new pre post pre' post'.
            serve e (length (requests w)) (GET (TIO_BASE_URL @ js ''/'')) = Fulfilled landing
            \<and> ok landing
            \<and> regexMatch SCRIPT_REGEX (bodyText landing) = Some [path]
            \<and> path = js ''/static/'' @ hex @ js ''-frontend.js'' \<and> hex \<noteq> [] \<and> list_all isLowerHex hex
            \<and> bodyText landing = pre @ scriptTag path @ post
            \<and> serve e (Suc (length (requests w))) (GET (TIO_BASE_URL @ path)) = Fulfilled script
            \<and> ok script
            \<and> regexMatch RUN_URL_REGEX (bodyText script) = Some [new]
            \<and> new \<noteq> [] \<and> dquote \<notin> set new
            \<and> bodyText script = pre' @ runUrlLine new @ post'
            \<and> (pre' = [] \<or> isLineTerminator (last pre'))
            \<and> (post' = [] \<or> isLineTerminator (hd post'))
            \<and> requests w' = requests w @ [GET (TIO_BASE_URL @ js ''/''), GET (TIO_BASE_URL @ path)]
            \<and> runUrl w' = Some new"
      apply (rule exI [of _ r1], rule exI [of _ "js ''/static/'' @ hex @ js ''-frontend.js''"])
      apply (rule exI [of _ hex], rule exI [of _ r2], rule exI [of _ new'])
      apply (rule exI [of _ pre], rule exI [of _ post], rule exI [of _ pre'], rule exI [of _ post'])
      apply (intro conjI)
      apply (rule r1(1), rule r1(2), rule m1, rule refl, rule hex(1), rule hex(2), rule html)
      apply (rule r2', rule r2(2), rule m1', rule new'(1), rule new'(2), rule script)
      apply (rule bounds(1), rule bounds(2), rule reqs', rule stored)
      done
    have later: "\<forall>e' t. t < nextRefreshAt w' \<longrightarrow>
              ensureRunUrl e' (w'\<lparr>now := t\<rparr>) = (Inr (), w'\<lparr>now := t\<rparr>)"
      using new by (simp add: ensureRunUrl_fresh)
    note exp' = exp [unfolded RUN_URL_REFRESH_MS_def]
    show "(\<exists>landing path hex script new pre post pre' post'.
            serve e (length (requests w)) (GET (TIO_BASE_URL @ js ''/'')) = Fulfilled landing
            \<and> ok landing
            \<and> regexMatch SCRIPT_REGEX (bodyText landing) = Some [path]
            \<and> path = js ''/static/'' @ hex @ js ''-frontend.js'' \<and> hex \<noteq> [] \<and> list_all isLowerHex hex
            \<and> bodyText landing = pre @ scriptTag path @ post
            \<and> serve e (Suc (length (requests w))) (GET (TIO_BASE_URL @ path)) = Fulfilled script
            \<and> ok script
            \<and> regexMatch RUN_URL_REGEX (bodyText script) = Some [new]
            \<and> new \<noteq> [] \<and> dquote \<notin> set new
            \<and> bodyText script = pre' @ runUrlLine new @ post'
            \<and> (pre' = [] \<or> isLineTerminator (last pre'))
            \<and> (post' = [] \<or> isLineTerminator (hd post'))
            \<and> requests w' = requests w @ [GET (TIO_BASE_URL @ js ''/''), GET (TIO_BASE_URL @ path)]
            \<and> runUrl w' = Some new)
        \<and> nextRefreshAt w' = now w' + 850000
        \<and> (\<forall>e' t. t < nextRefreshAt w' \<longrightarrow>
              ensureRunUrl e' (w'\<lparr>now := t\<rparr>) = (Inr (), w'\<lparr>now := t\<rparr>))"
      by (rule conjI [OF docs conjI [OF exp' later]])
  qed
  have c: "\<not> (runUrl w \<noteq> None \<and> now w < nextRefreshAt w) \<longrightarrow>
        requests (snd (ensureRunUrl e w)) \<noteq> requests w"
    by (rule impI) (rule ensureRunUrl_stale_fetches)
  have d: "\<not> (runUrl w \<noteq> None \<and> now w < nextRefreshAt w)
        \<and> runUrl v = runUrl w \<and> nextRefreshAt v = nextRefreshAt w \<and> now w \<le> now v \<longrightarrow>
        requests (snd (ensureRunUrl e' v)) \<noteq> requests v"
  proof (intro impI, elim conjE)
    assume "\<not> (runUrl w \<noteq> None \<and> now w < nextRefreshAt w)"
      "runUrl v = runUrl w" "nextRefreshAt v = nextRefreshAt w" "now w \<le> now v"
    then have "\<not> (runUrl v \<noteq> None \<and> now v < nextRefreshAt v)" by auto
    then show "requests (snd (ensureRunUrl e' v)) \<noteq> requests v" by (rule ensureRunUrl_stale_fetches)
  qed
  have f: "\<not> (runUrl w \<noteq> None \<and> now w < nextRefreshAt w) \<and> ensureRunUrl e w = (Inl err, w') \<longrightarrow>
        (\<forall>e' t. now w' \<le> t \<longrightarrow>
           requests (snd (ensureRunUrl e' (w'\<lparr>now := t\<rparr>))) \<noteq> requests w')"
  proof (intro impI allI, elim conjE)
    fix e' t
    assume stale: "\<not> (runUrl w \<noteq> None \<and> now w < nextRefreshAt w)"
      and err: "ensureRunUrl e w = (Inl err, w')" and t: "now w' \<le> t"
    from ensureRunUrl_error_keeps_cache [OF err]
    have keep: "runUrl w' = runUrl w" "nextRefreshAt w' = nextRefreshAt w" by simp_all
    have "now w \<le> now w'"
      using stale
    proof (cases rule: ensureRunUrl_stale_cases [where e = e])
      case (landing_failed err w1)
      with err fetchText_frame [OF landing_failed(1)] show ?thesis by auto
    next
      case (no_script html w1)
      with err fetchText_frame [OF no_script(1)] show ?thesis by auto
    next
      case (script_failed html w1 m err w2)
      with err fetchText_frame [OF script_failed(1)] fetchText_frame [OF script_failed(4)]
      show ?thesis by auto
    next
      case (no_url html w1 m script w2)
      with err fetchText_frame [OF no_url(1)] fetchText_frame [OF no_url(4)]
      show ?thesis by auto
    next
      case (resolved html w1 m script w2 m')
      with err show ?thesis by simp
    qed
    with t stale keep have "\<not> (runUrl (w'\<lparr>now := t\<rparr>) \<noteq> None
        \<and> now (w'\<lparr>now := t\<rparr>) < nextRefreshAt (w'\<lparr>now := t\<rparr>))"
      by auto
    from ensureRunUrl_stale_fetches [OF this, of e']
    show "requests (snd (ensureRunUrl e' (w'\<lparr>now := t\<rparr>))) \<noteq> requests w'" by simp
  qed
  have g: "14 * 60 * 1000 \<le> RUN_URL_REFRESH_MS" "RUN_URL_REFRESH_MS < 15 * 60 * 1000"
    by (simp_all add: RUN_URL_REFRESH_MS_def)
  show ?thesis
    by (rule conjI [OF a conjI [OF b conjI [OF c conjI [OF d conjI [OF f conjI [OF g]]]]]])
qed

lemma resolve_cold: "ensureRunUrl (demoEnv demoServe []) coldWorld = (Inr (), resolvedWorld)"
  by code_simp

lemma resolve_down:
  "ensureRunUrl (demoEnv downServe []) expiredWorld = (Inl (FetchFailed (js ''/'') 404), failedWorld)"
  by code_simp

theorem cached_endpoint_reused_until_expiry_witness:
  "runUrl warmWorld \<noteq> None \<and> now warmWorld < nextRefreshAt warmWorld
   \<and> ensureRunUrl (demoEnv downServe []) warmWorld = (Inr (), warmWorld)
   \<and> \<not> (runUrl coldWorld \<noteq> None \<and> now coldWorld < nextRefreshAt coldWorld)
   \<and> ensureRunUrl (demoEnv demoServe []) coldWorld = (Inr (), resolvedWorld)
   \<and> requests resolvedWorld
       = requests coldWorld @ [GET (js ''https://tio.run/''), GET (js ''https://tio.run/static/0a1b-frontend.js'')]
   \<and> runUrl resolvedWorld = Some (js ''fb67-run'')
   \<and> nextRefreshAt resolvedWorld = now resolvedWorld + 850000
   \<and> (1850039 :: int) < nextRefreshAt resolvedWorld
   \<and> ensureRunUrl (demoEnv downServe []) (resolvedWorld\<lparr>now := 1850039\<rparr>)
       = (Inr (), resolvedWorld\<lparr>now := 1850039\<rparr>)
   \<and> requests (snd (ensureRunUrl (demoEnv demoServe []) (resolvedWorld\<lparr>now := 1850040\<rparr>)))
       \<noteq> requests (resolvedWorld\<lparr>now := 1850040\<rparr>)
   \<and> \<not> (runUrl expiredWorld \<noteq> None \<and> now expiredWorld < nextRefreshAt expiredWorld)
   \<and> ensureRunUrl (demoEnv downServe []) expiredWorld = (Inl (FetchFailed (js ''/'') 404), failedWorld)
   \<and> now failedWorld \<le> 1900000
   \<and> requests (snd (ensureRunUrl (demoEnv demoServe []) (failedWorld\<lparr>now := 1900000\<rparr>)))
       \<noteq> requests failedWorld
   \<and> runUrl failedWorld = runUrl expiredWorld \<and> nextRefreshAt failedWorld = nextRefreshAt expiredWorld
   \<and> now expiredWorld \<le> now failedWorld
   \<and> requests (snd (ensureRunUrl (demoEnv demoServe []) failedWorld)) \<noteq> requests failedWorld"
proof -
  have fresh: "runUrl warmWorld \<noteq> None \<and> now warmWorld < nextRefreshAt warmWorld"
    by (simp add: warmWorld_def)
  have stale: "\<not> (runUrl coldWorld \<noteq> None \<and> now coldWorld < nextRefreshAt coldWorld)"
    by (simp add: coldWorld_def)
  have expired: "\<not> (runUrl (resolvedWorld\<lparr>now := 1850040\<rparr>) \<noteq> None
      \<and> now (resolvedWorld\<lparr>now := 1850040\<rparr>) < nextRefreshAt (resolvedWorld\<lparr>now := 1850040\<rparr>))"
    by (simp add: resolvedWorld_def)
  have within: "(1850039 :: int) < nextRefreshAt resolvedWorld"
    by (simp add: resolvedWorld_def)
  have reqs: "requests resolvedWorld
       = requests coldWorld @ [GET (js ''https://tio.run/''), GET (js ''https://tio.run/static/0a1b-frontend.js'')]"
    by (simp add: resolvedWorld_def coldWorld_def)
  have url: "runUrl resolvedWorld = Some (js ''fb67-run'')"
    by (simp add: resolvedWorld_def)
  have stale': "\<not> (runUrl expiredWorld \<noteq> None \<and> now expiredWorld < nextRefreshAt expiredWorld)"
    by (simp add: expiredWorld_def)
  have same: "runUrl failedWorld = runUrl expiredWorld \<and> nextRefreshAt failedWorld = nextRefreshAt expiredWorld
      \<and> now expiredWorld \<le> now failedWorld"
    and after: "now failedWorld \<le> 1900000"
    by (simp_all add: failedWorld_def expiredWorld_def)
  note a = cached_endpoint_reused_until_expiry [where w = warmWorld and e = "demoEnv downServe []"]
  note b = cached_endpoint_reused_until_expiry [where w = coldWorld and e = "demoEnv demoServe []"
      and w' = resolvedWorld]
  note c = cached_endpoint_reused_until_expiry [where w = "resolvedWorld\<lparr>now := 1850040\<rparr>"
      and e = "demoEnv demoServe []"]
  note d = cached_endpoint_reused_until_expiry [where w = expiredWorld and e = "demoEnv downServe []"
      and w' = failedWorld and v = failedWorld and e' = "demoEnv demoServe []"
      and err = "FetchFailed (js ''/'') 404"]
  from a fresh have 1: "ensureRunUrl (demoEnv downServe []) warmWorld = (Inr (), warmWorld)"
    by blast
  from b stale resolve_cold have 2: "nextRefreshAt resolvedWorld = now resolvedWorld + 850000"
    and 3: "\<forall>e' t. t < nextRefreshAt resolvedWorld \<longrightarrow>
              ensureRunUrl e' (resolvedWorld\<lparr>now := t\<rparr>) = (Inr (), resolvedWorld\<lparr>now := t\<rparr>)"
    by blast+
  from 3 within have 4: "ensureRunUrl (demoEnv downServe []) (resolvedWorld\<lparr>now := 1850039\<rparr>)
       = (Inr (), resolvedWorld\<lparr>now := 1850039\<rparr>)"
    by blast
  from c expired have 5: "requests (snd (ensureRunUrl (demoEnv demoServe []) (resolvedWorld\<lparr>now := 1850040\<rparr>)))
       \<noteq> requests (resolvedWorld\<lparr>now := 1850040\<rparr>)"
    by blast
  from d stale' same have 6: "requests (snd (ensureRunUrl (demoEnv demoServe []) failedWorld)) \<noteq> requests failedWorld"
    by blast
  from d stale' resolve_down have "\<forall>e' t. now failedWorld \<le> t \<longrightarrow>
           requests (snd (ensureRunUrl e' (failedWorld\<lparr>now := t\<rparr>))) \<noteq> requests failedWorld"
    by blast
  with after have 7: "requests (snd (ensureRunUrl (demoEnv demoServe []) (failedWorld\<lparr>now := 1900000\<rparr>)))
       \<noteq> requests failedWorld"
    by blast
  from fresh stale resolve_cold reqs url within 1 2 4 5 stale' resolve_down after 7 same 6
  show ?thesis by blast
qed

text \<open>
  C8 as stated fails: the next call after the expiry is not the only one that fetches.
  When the landing page is answered with status 404 once, the next call after the
  expiry issues one request and raises, the cache stays expired, and the call after it
  issues the two discovery requests and stores the endpoint.
\<close>

theorem refresh_repeated_counterexample:
  "\<not> (runUrl expiredWorld \<noteq> None \<and> now expiredWorld < nextRefreshAt expiredWorld)
   \<and> ensureRunUrl (demoEnv flakyServe []) expiredWorld = (Inl (FetchFailed (js ''/'') 404), failedWorld)
   \<and> requests failedWorld = [GET (js ''https://tio.run/'')]
   \<and> ensureRunUrl (demoEnv flakyServe []) failedWorld = (Inr (), retriedWorld)
   \<and> requests retriedWorld
       = [GET (js ''https://tio.run/''), GET (js ''https://tio.run/''),
          GET (js ''https://tio.run/static/0a1b-frontend.js'')]"
proof -
  have 1: "\<not> (runUrl expiredWorld \<noteq> None \<and> now expiredWorld < nextRefreshAt expiredWorld)"
    by (simp add: expiredWorld_def)
  have 2: "ensureRunUrl (demoEnv flakyServe []) expiredWorld = (Inl (FetchFailed (js ''/'') 404), failedWorld)"
    by code_simp
  have 3: "ensureRunUrl (demoEnv flakyServe []) failedWorld = (Inr (), retriedWorld)"
    by code_simp
  have 4: "requests failedWorld = [GET (js ''https://tio.run/'')]"
    by (simp add: failedWorld_def)
  have 5: "requests retriedWorld
       = [GET (js ''https://tio.run/''), GET (js ''https://tio.run/''),
          GET (js ''https://tio.run/static/0a1b-frontend.js'')]"
    by (simp add: retriedWorld_def)
  from 1 2 3 4 5 show ?thesis by blast
qed

end
